theory Spec2Isabelle
  imports Complex_Main "HOL-Library.Log_Nat"
begin

section \<open>Values of the Go runtime\<close>

subsection \<open>float64\<close>

text \<open>
  A \<^verbatim>\<open>float64\<close> is a finite value (kept as the exact rational it denotes), an infinity
  or NaN. Every arithmetic operation computes the exact result and rounds it to the nearest
  binary64 (53 significant bits, ties to even, subnormals below \<open>2^-1022\<close>, overflow to
  infinity from \<open>2^1024\<close>). The sign of zero is not kept: no operation of the program
  depends on it.
\<close>

datatype float64 = Fin rat | PInf | NInf | NaN

definition round_half_even :: "rat \<Rightarrow> int" where
  "round_half_even y =
     (let f = \<lfloor>y\<rfloor>; d = y - of_int f
      in if d < 1 / 2 then f else if 1 / 2 < d then f + 1 else if even f then f else f + 1)"

text \<open>For \<open>0 < x\<close>, \<open>ilog2 x\<close> is the exponent \<open>e\<close> with \<open>2^e \<le> x < 2^(e+1)\<close>.\<close>

definition ilog2 :: "rat \<Rightarrow> int" where
  "ilog2 x = (if 1 \<le> x then bitlen \<lfloor>x\<rfloor> - 1 else - bitlen (\<lceil>1 / x\<rceil> - 1))"

definition pow2 :: "int \<Rightarrow> rat" where
  "pow2 e = (if 0 \<le> e then 2 ^ nat e else 1 / 2 ^ nat (- e))"

definition f64_round :: "rat \<Rightarrow> float64" where
  "f64_round x =
     (if x = 0 then Fin 0
      else let e = max (ilog2 \<bar>x\<bar>) (- 1022);
               u = pow2 (e - 52);
               m = of_int (round_half_even (\<bar>x\<bar> / u)) * u
           in if pow2 1024 \<le> m then (if 0 < x then PInf else NInf)
              else Fin (sgn x * m))"

text \<open>The conversion \<^verbatim>\<open>float64(n)\<close> of an \<^verbatim>\<open>int\<close>.\<close>

definition f64_of_int :: "int \<Rightarrow> float64" where
  "f64_of_int n = f64_round (of_int n)"

text \<open>The operators \<^verbatim>\<open>/\<close> and \<^verbatim>\<open>*\<close> on \<^verbatim>\<open>float64\<close>. A zero divisor is the
  positive zero that \<^verbatim>\<open>float64(0)\<close> gives.\<close>

fun f64_div :: "float64 \<Rightarrow> float64 \<Rightarrow> float64" where
  "f64_div NaN y = NaN"
| "f64_div x NaN = NaN"
| "f64_div (Fin a) (Fin b) =
     (if b = 0 then (if a = 0 then NaN else if 0 < a then PInf else NInf)
      else f64_round (a / b))"
| "f64_div (Fin a) y = Fin 0"
| "f64_div PInf (Fin b) = (if 0 \<le> b then PInf else NInf)"
| "f64_div NInf (Fin b) = (if 0 \<le> b then NInf else PInf)"
| "f64_div x y = NaN"

fun f64_mul :: "float64 \<Rightarrow> float64 \<Rightarrow> float64" where
  "f64_mul NaN y = NaN"
| "f64_mul x NaN = NaN"
| "f64_mul (Fin a) (Fin b) = f64_round (a * b)"
| "f64_mul (Fin a) PInf = (if a = 0 then NaN else if 0 < a then PInf else NInf)"
| "f64_mul (Fin a) NInf = (if a = 0 then NaN else if 0 < a then NInf else PInf)"
| "f64_mul PInf (Fin b) = (if b = 0 then NaN else if 0 < b then PInf else NInf)"
| "f64_mul NInf (Fin b) = (if b = 0 then NaN else if 0 < b then NInf else PInf)"
| "f64_mul PInf PInf = PInf"
| "f64_mul NInf NInf = PInf"
| "f64_mul PInf NInf = NInf"
| "f64_mul NInf PInf = NInf"

text \<open>\<^verbatim>\<open>math.Ceil\<close>: the least integral value not below the argument; infinities and NaN
  are returned as they are.\<close>

fun math_Ceil :: "float64 \<Rightarrow> float64" where
  "math_Ceil (Fin r) = Fin (of_int \<lceil>r\<rceil>)"
| "math_Ceil x = x"

text \<open>
  The conversion \<^verbatim>\<open>int(x)\<close> of a \<^verbatim>\<open>float64\<close> to the 64-bit \<^verbatim>\<open>int\<close> drops the
  fraction. Where the value is not representable (NaN, an infinity, a magnitude beyond 64
  bits) the conversion succeeds with a value that the language leaves to the implementation:
  it is the parameter \<open>unrep\<close>.
\<close>

definition int_of_f64 :: "(float64 \<Rightarrow> int) \<Rightarrow> float64 \<Rightarrow> int" where
  "int_of_f64 unrep x =
     (case x of
        Fin r \<Rightarrow> (let t = (if 0 \<le> r then \<lfloor>r\<rfloor> else \<lceil>r\<rceil>)
                  in if - (2 ^ 63) \<le> t \<and> t < 2 ^ 63 then t else unrep x)
      | _ \<Rightarrow> unrep x)"

subsection \<open>Strings\<close>

text \<open>\<^verbatim>\<open>strings.HasPrefix\<close> and \<^verbatim>\<open>strings.TrimPrefix\<close>.\<close>

definition HasPrefix :: "string \<Rightarrow> string \<Rightarrow> bool" where
  "HasPrefix s pre = (length pre \<le> length s \<and> take (length pre) s = pre)"

definition TrimPrefix :: "string \<Rightarrow> string \<Rightarrow> string" where
  "TrimPrefix s pre = (if HasPrefix s pre then drop (length pre) s else s)"

text \<open>\<^verbatim>\<open>strconv.Itoa\<close>: the decimal digits, after a minus sign for a negative number.\<close>

definition digit_char :: "nat \<Rightarrow> char" where
  "digit_char d = ''0123456789'' ! d"

fun FormatUint :: "nat \<Rightarrow> string" where
  "FormatUint n = (if n < 10 then [digit_char n] else FormatUint (n div 10) @ [digit_char (n mod 10)])"

declare FormatUint.simps [simp del]

definition Itoa :: "int \<Rightarrow> string" where
  "Itoa i = (if i < 0 then CHR ''-'' # FormatUint (nat (- i)) else FormatUint (nat i))"

subsection \<open>Panics\<close>

text \<open>A run-time panic ends the program; the model returns it in place of a result.\<close>

datatype panic = NilFuncCall | NilDeref | IndexOutOfRange

section \<open>External collaborators\<close>

text \<open>
  An \<^verbatim>\<open>image.Image\<close> is an interface value: \<open>None\<close> is \<^verbatim>\<open>nil\<close>, \<open>Some i\<close> an image
  \<open>i\<close> of the codec and transform libraries, whose type \<open>'img\<close> is left open.
\<close>

type_synonym 'img image = "'img option"

datatype ResampleFilter =
  NearestNeighbor | Box | Linear | Gaussian | MitchellNetravali | CatmullRom | Lanczos

text \<open>
  The functions of the standard library and of the bild library that the program calls are
  parameters of the model:
  \<^item> \<open>image_Decode\<close> is \<^verbatim>\<open>image.Decode\<close> reading through \<^verbatim>\<open>base64.NewDecoder\<close>: from
    the base64 text to the image, the format name and the error (\<open>None\<close> is a \<^verbatim>\<open>nil\<close>
    error, \<open>Some msg\<close> an error whose \<^verbatim>\<open>Error()\<close> is \<open>msg\<close>);
  \<^item> \<open>Bounds_Dx\<close> and \<open>Bounds_Dy\<close> are \<^verbatim>\<open>Bounds().Dx()\<close> and \<^verbatim>\<open>Bounds().Dy()\<close>;
  \<^item> \<open>adjust_Brightness\<close>, \<open>adjust_Contrast\<close>, \<open>effect_EdgeDetection\<close> and
    \<open>transform_Resize\<close> are the functions of bild;
  \<^item> \<open>f64_unrep\<close> is what the platform gives for \<^verbatim>\<open>int(x)\<close> at an unrepresentable
    \<open>x\<close>.
\<close>

record 'img extern =
  image_Decode :: "string \<Rightarrow> 'img image \<times> string \<times> string option"
  Bounds_Dx :: "'img \<Rightarrow> int"
  Bounds_Dy :: "'img \<Rightarrow> int"
  adjust_Brightness :: "'img image \<Rightarrow> float64 \<Rightarrow> 'img image"
  adjust_Contrast :: "'img image \<Rightarrow> float64 \<Rightarrow> 'img image"
  effect_EdgeDetection :: "'img image \<Rightarrow> float64 \<Rightarrow> 'img image"
  transform_Resize :: "'img image \<Rightarrow> int \<Rightarrow> int \<Rightarrow> ResampleFilter \<Rightarrow> 'img image"
  f64_unrep :: "float64 \<Rightarrow> int"

section \<open>The program of main.go\<close>

text \<open>
  The file src/main.go holds two revisions of the program, one after the other. This
  section follows the first (lines 1 to 234), with the \<^verbatim>\<open>JsApp\<close> and its callbacks.
\<close>

definition jpegPrefix :: string where
  "jpegPrefix = ''data:image/jpeg;base64,''"

definition pngPrefix :: string where
  "pngPrefix = ''data:image/png;base64,''"

type_synonym 'img effectFn = "'img image \<Rightarrow> 'img image"

text \<open>The struct \<^verbatim>\<open>Effect\<close>; its fields carry the suffix \<open>_e\<close>.\<close>

record Effect =
  Id_e :: string
  Name_e :: string
  Value_e :: float64
  Min_e :: int
  Max_e :: int

text \<open>\<^verbatim>\<open>GetEffectFn\<close>: \<open>None\<close> is the \<^verbatim>\<open>nil\<close> function of the default branch. The
  closure reads \<^verbatim>\<open>eff.Value\<close>; it is called at once by its only caller.\<close>

definition GetEffectFn :: "'img extern \<Rightarrow> Effect \<Rightarrow> 'img effectFn option" where
  "GetEffectFn X eff =
     (if Name_e eff = ''brightness'' then Some (\<lambda>img. adjust_Brightness X img (Value_e eff))
      else if Name_e eff = ''contrast'' then Some (\<lambda>img. adjust_Contrast X img (Value_e eff))
      else None)"

text \<open>The struct \<^verbatim>\<open>App\<close>, without its encoding buffer. The counter and the width are
  integers: the program increments the one and converts the other to \<^verbatim>\<open>float64\<close>.\<close>

record 'img App =
  cnt :: int
  dstWidth :: int
  sourceImg :: "'img image"
  resizedImg :: "'img image"
  effects :: "Effect list"

definition NewApp :: "'img App" where
  "NewApp = \<lparr>cnt = 0, dstWidth = 200, sourceImg = None, resizedImg = None, effects = []\<rparr>"

definition Append :: "'img App \<Rightarrow> Effect \<Rightarrow> 'img App" where
  "Append app eff = app\<lparr>effects := effects app @ [eff]\<rparr>"

text \<open>The loop of \<^verbatim>\<open>Update\<close>: the first effect with the identifier gets the value, and
  the loop breaks.\<close>

fun Update_loop :: "Effect list \<Rightarrow> string \<Rightarrow> float64 \<Rightarrow> Effect list" where
  "Update_loop [] ident v = []"
| "Update_loop (e # es) ident v =
     (if Id_e e = ident then e\<lparr>Value_e := v\<rparr> # es else e # Update_loop es ident v)"

definition Update :: "'img App \<Rightarrow> string \<Rightarrow> float64 \<Rightarrow> 'img App" where
  "Update app ident v = app\<lparr>effects := Update_loop (effects app) ident v\<rparr>"

text \<open>
  \<^verbatim>\<open>NewSourceImgFromString\<close> returns the session and the lines it wrote to the console.
  \<open>decode_and_resize\<close> is its body after the \<^verbatim>\<open>switch\<close>: the decoded image is assigned to
  \<^verbatim>\<open>app.sourceImg\<close> before the error is looked at.
\<close>

definition decode_and_resize ::
  "'img extern \<Rightarrow> 'img App \<Rightarrow> string \<Rightarrow> panic + ('img App \<times> string list)" where
  "decode_and_resize X app simg =
     (case image_Decode X simg of
        (m, fmt, err) \<Rightarrow>
          let app1 = app\<lparr>sourceImg := m\<rparr> in
          (case err of
             Some msg \<Rightarrow> Inr (app1, [msg])
           | None \<Rightarrow>
              (case sourceImg app1 of
                 None \<Rightarrow> Inl NilDeref
               | Some i \<Rightarrow>
                  let srcWidth = Bounds_Dx X i;
                      srcHeight = Bounds_Dy X i;
                      dstWidth' = dstWidth app1;
                      ratio = f64_div (f64_of_int srcHeight) (f64_of_int srcWidth);
                      dstHeight = int_of_f64 (f64_unrep X)
                                    (math_Ceil (f64_mul ratio (f64_of_int dstWidth')))
                  in Inr (app1\<lparr>resizedImg :=
                                  transform_Resize X (sourceImg app1) dstWidth' dstHeight Linear\<rparr>,
                          []))))"

definition NewSourceImgFromString ::
  "'img extern \<Rightarrow> 'img App \<Rightarrow> string \<Rightarrow> panic + ('img App \<times> string list)" where
  "NewSourceImgFromString X app simg =
     (if HasPrefix simg jpegPrefix then decode_and_resize X app (TrimPrefix simg jpegPrefix)
      else if HasPrefix simg pngPrefix then decode_and_resize X app (TrimPrefix simg pngPrefix)
      else Inr (app, [''unrecognized image format'']))"

text \<open>The height that \<^verbatim>\<open>NewSourceImgFromString\<close> computes for the preview, from the
  width and height of the source and the target width.\<close>

definition dstHeight_of :: "(float64 \<Rightarrow> int) \<Rightarrow> int \<Rightarrow> int \<Rightarrow> int \<Rightarrow> int" where
  "dstHeight_of unrep srcW srcH dstW =
     (let ratio = f64_div (f64_of_int srcH) (f64_of_int srcW)
      in int_of_f64 unrep (math_Ceil (f64_mul ratio (f64_of_int dstW))))"

text \<open>\<^verbatim>\<open>PreviewImg\<close>: calling the \<^verbatim>\<open>nil\<close> function panics.\<close>

fun PreviewImg_loop :: "'img extern \<Rightarrow> 'img image \<Rightarrow> Effect list \<Rightarrow> panic + 'img image" where
  "PreviewImg_loop X img [] = Inr img"
| "PreviewImg_loop X img (eff # effs) =
     (case GetEffectFn X eff of
        None \<Rightarrow> Inl NilFuncCall
      | Some f \<Rightarrow> PreviewImg_loop X (f img) effs)"

definition PreviewImg :: "'img extern \<Rightarrow> 'img App \<Rightarrow> panic + 'img image" where
  "PreviewImg X app = PreviewImg_loop X (resizedImg app) (effects app)"

text \<open>
  \<^verbatim>\<open>NewJsApp(app App)\<close> copies its argument into the embedded \<^verbatim>\<open>App\<close> of the new
  \<^verbatim>\<open>JsApp\<close>. Its callbacks close over both the \<^verbatim>\<open>JsApp\<close> and the parameter \<^verbatim>\<open>app\<close>:
  \<open>App_j\<close> is the embedded struct, \<open>app_j\<close> the captured parameter.
\<close>

record 'img JsApp =
  App_j :: "'img App"
  app_j :: "'img App"

definition NewJsApp :: "'img App \<Rightarrow> 'img JsApp" where
  "NewJsApp app = \<lparr>App_j = app, app_j = app\<rparr>"

text \<open>
  \<^verbatim>\<open>AddEffectCallback\<close>, given the \<^verbatim>\<open>id\<close> of the selected option: it increments
  \<^verbatim>\<open>jsa.cnt\<close>, builds the effect with the identifier made from \<^verbatim>\<open>app.cnt\<close>, and
  appends it. The effect is returned for rendering.
\<close>

definition AddEffectCallback :: "'img JsApp \<Rightarrow> string \<Rightarrow> 'img JsApp \<times> Effect" where
  "AddEffectCallback jsa selected =
     (let jsa1 = jsa\<lparr>App_j := (App_j jsa)\<lparr>cnt := cnt (App_j jsa) + 1\<rparr>\<rparr>;
          eff = \<lparr>Id_e = selected @ Itoa (cnt (app_j jsa1)), Name_e = selected,
                 Value_e = Fin 0, Min_e = 2, Max_e = 2\<rparr>
      in (jsa1\<lparr>App_j := Append (App_j jsa1) eff\<rparr>, eff))"

text \<open>\<^verbatim>\<open>ChangeEffectsCallback\<close>, given the target's \<^verbatim>\<open>id\<close> and \<^verbatim>\<open>valueAsNumber\<close>.\<close>

definition ChangeEffectsCallback :: "'img JsApp \<Rightarrow> string \<Rightarrow> float64 \<Rightarrow> 'img JsApp" where
  "ChangeEffectsCallback jsa ident v = jsa\<lparr>App_j := Update (App_j jsa) ident v\<rparr>"

section \<open>The second revision in main.go\<close>

text \<open>
  The second revision (from line 235 of src/main.go) has the \<^verbatim>\<open>Effect\<close>, \<^verbatim>\<open>GetEffectFn\<close>,
  \<^verbatim>\<open>Append\<close>, \<^verbatim>\<open>Update\<close>, \<^verbatim>\<open>NewSourceImgFromString\<close> and \<^verbatim>\<open>PreviewImg\<close> of the
  first, word for word. It has no \<^verbatim>\<open>JsApp\<close>: the listeners are closures over the one
  \<^verbatim>\<open>*App\<close>, whose channel \<^verbatim>\<open>done\<close> is left out here as the buffer is. The listener of
  the add button increments \<^verbatim>\<open>app.cnt\<close> and makes the identifier from the same counter.
\<close>

definition addEffectBtnClickListener :: "'img App \<Rightarrow> string \<Rightarrow> 'img App \<times> Effect" where
  "addEffectBtnClickListener app selected =
     (let app1 = app\<lparr>cnt := cnt app + 1\<rparr>;
          eff = \<lparr>Id_e = selected @ Itoa (cnt app1), Name_e = selected,
                 Value_e = Fin 0, Min_e = 2, Max_e = 2\<rparr>
      in (Append app1 eff, eff))"

definition effectsChangeListener :: "'img App \<Rightarrow> string \<Rightarrow> float64 \<Rightarrow> 'img App" where
  "effectsChangeListener app ident v = Update app ident v"

section \<open>The revision of src/unnamed/part_001\<close>

text \<open>
  This revision separates the kind of an effect (\<^verbatim>\<open>Effect\<close>) from its instance in the
  pipeline (\<^verbatim>\<open>Transformation\<close>), knows a third kind, and keeps a catalogue of kinds in
  \<^verbatim>\<open>App.Effects\<close>. Its \<^verbatim>\<open>NewSourceImgFromString\<close> is the one above, word for word. The
  names of this revision carry a \<open>2\<close> where they would clash with the names above.
\<close>

text \<open>An effect function of this revision reads \<^verbatim>\<open>values[0]\<close> when it is called, which
  panics on an empty slice.\<close>

type_synonym 'img effectFn2 = "'img image \<Rightarrow> panic + 'img image"

record Effect2 =
  Name_e2 :: string
  Min_e2 :: int
  Max_e2 :: int

definition GetEffectFn2 :: "'img extern \<Rightarrow> Effect2 \<Rightarrow> float64 list \<Rightarrow> 'img effectFn2 option" where
  "GetEffectFn2 X eff values =
     (if Name_e2 eff = ''brightness'' then
        Some (\<lambda>img. case values of [] \<Rightarrow> Inl IndexOutOfRange
                                 | v # _ \<Rightarrow> Inr (adjust_Brightness X img v))
      else if Name_e2 eff = ''contrast'' then
        Some (\<lambda>img. case values of [] \<Rightarrow> Inl IndexOutOfRange
                                 | v # _ \<Rightarrow> Inr (adjust_Contrast X img v))
      else if Name_e2 eff = ''edge-detection'' then
        Some (\<lambda>img. case values of [] \<Rightarrow> Inl IndexOutOfRange
                                 | v # _ \<Rightarrow> Inr (effect_EdgeDetection X img v))
      else None)"

text \<open>The struct \<^verbatim>\<open>Transformation\<close>: the embedded \<^verbatim>\<open>Effect\<close>, the identifier, the
  values and the function \<^verbatim>\<open>Fn\<close>.\<close>

record 'img Transformation =
  Effect_t :: Effect2
  Id_t :: string
  Values_t :: "float64 list"
  Fn_t :: "float64 list \<Rightarrow> 'img effectFn2 option"

definition Transform :: "'img Transformation \<Rightarrow> 'img effectFn2 option" where
  "Transform t = Fn_t t (Values_t t)"

record 'img App2 =
  cnt2 :: int
  dstWidth2 :: int
  sourceImg2 :: "'img image"
  resizedImg2 :: "'img image"
  Effects2 :: "Effect2 list"
  transformations :: "'img Transformation list"

definition NewApp2 :: "'img App2" where
  "NewApp2 =
     \<lparr>cnt2 = 0, dstWidth2 = 200, sourceImg2 = None, resizedImg2 = None,
      Effects2 = [\<lparr>Name_e2 = ''contrast'', Min_e2 = - 2, Max_e2 = 2\<rparr>,
                  \<lparr>Name_e2 = ''brightness'', Min_e2 = - 2, Max_e2 = 2\<rparr>,
                  \<lparr>Name_e2 = ''edge-detection'', Min_e2 = - 2, Max_e2 = 2\<rparr>],
      transformations = []\<rparr>"

definition Append2 :: "'img App2 \<Rightarrow> 'img Transformation \<Rightarrow> 'img App2" where
  "Append2 app t = app\<lparr>transformations := transformations app @ [t]\<rparr>"

fun Update2_loop ::
  "'img Transformation list \<Rightarrow> string \<Rightarrow> float64 list \<Rightarrow> 'img Transformation list" where
  "Update2_loop [] ident values = []"
| "Update2_loop (t # ts) ident values =
     (if Id_t t = ident then t\<lparr>Values_t := values\<rparr> # ts else t # Update2_loop ts ident values)"

definition Update2 :: "'img App2 \<Rightarrow> string \<Rightarrow> float64 list \<Rightarrow> 'img App2" where
  "Update2 app ident values =
     app\<lparr>transformations := Update2_loop (transformations app) ident values\<rparr>"

fun PreviewImg2_loop :: "'img image \<Rightarrow> 'img Transformation list \<Rightarrow> panic + 'img image" where
  "PreviewImg2_loop img [] = Inr img"
| "PreviewImg2_loop img (t # ts) =
     (case Transform t of
        None \<Rightarrow> Inl NilFuncCall
      | Some f \<Rightarrow> (case f img of Inl p \<Rightarrow> Inl p | Inr img' \<Rightarrow> PreviewImg2_loop img' ts))"

definition PreviewImg2 :: "'img App2 \<Rightarrow> panic + 'img image" where
  "PreviewImg2 app = PreviewImg2_loop (resizedImg2 app) (transformations app)"

text \<open>The callbacks of this revision read and write the counter of the \<^verbatim>\<open>JsApp\<close> only;
  the captured parameter is kept as \<open>app_j2\<close>.\<close>

record 'img JsApp2 =
  App_j2 :: "'img App2"
  app_j2 :: "'img App2"

definition NewJsApp2 :: "'img App2 \<Rightarrow> 'img JsApp2" where
  "NewJsApp2 app = \<lparr>App_j2 = app, app_j2 = app\<rparr>"

definition AddEffectCallback2 ::
  "'img extern \<Rightarrow> 'img JsApp2 \<Rightarrow> string \<Rightarrow> 'img JsApp2 \<times> 'img Transformation" where
  "AddEffectCallback2 X jsa selected =
     (let jsa1 = jsa\<lparr>App_j2 := (App_j2 jsa)\<lparr>cnt2 := cnt2 (App_j2 jsa) + 1\<rparr>\<rparr>;
          eff = \<lparr>Name_e2 = selected, Min_e2 = - 2, Max_e2 = 2\<rparr>;
          t = \<lparr>Effect_t = eff, Id_t = selected @ Itoa (cnt2 (App_j2 jsa1)),
               Values_t = [Fin 0], Fn_t = GetEffectFn2 X eff\<rparr>
      in (jsa1\<lparr>App_j2 := Append2 (App_j2 jsa1) t\<rparr>, t))"

definition ChangeEffectsCallback2 :: "'img JsApp2 \<Rightarrow> string \<Rightarrow> float64 \<Rightarrow> 'img JsApp2" where
  "ChangeEffectsCallback2 jsa ident v = jsa\<lparr>App_j2 := Update2 (App_j2 jsa) ident [v]\<rparr>"

section \<open>A symbolic library\<close>

text \<open>
  For evaluating the program on concrete inputs the external functions are instantiated by
  the term algebra of their calls: an image is either decoded, with its width and height,
  or the record of the call that made it. The decoder knows four payloads and rejects every
  other text; a failed decoding returns the \<^verbatim>\<open>nil\<close> image with the error, as
  \<^verbatim>\<open>image.Decode\<close> does.
\<close>

datatype sym_img =
  Pixels int int
| Brightness "sym_img option" float64
| Contrast "sym_img option" float64
| EdgeDetection "sym_img option" float64
| Resized "sym_img option" int int ResampleFilter

definition sym_Decode :: "string \<Rightarrow> sym_img image \<times> string \<times> string option" where
  "sym_Decode s =
     (if s = ''img400x300'' then (Some (Pixels 400 300), ''jpeg'', None)
      else if s = ''img100x100'' then (Some (Pixels 100 100), ''png'', None)
      else if s = ''img100x7'' then (Some (Pixels 100 7), ''png'', None)
      else if s = ''img0x5'' then (Some (Pixels 0 5), ''png'', None)
      else (None, [], Some ''image: unknown format''))"

fun sym_Dx :: "sym_img \<Rightarrow> int" where
  "sym_Dx (Pixels w h) = w"
| "sym_Dx (Resized i w h f) = w"
| "sym_Dx (Brightness i v) = (case i of None \<Rightarrow> 0 | Some j \<Rightarrow> sym_Dx j)"
| "sym_Dx (Contrast i v) = (case i of None \<Rightarrow> 0 | Some j \<Rightarrow> sym_Dx j)"
| "sym_Dx (EdgeDetection i v) = (case i of None \<Rightarrow> 0 | Some j \<Rightarrow> sym_Dx j)"

fun sym_Dy :: "sym_img \<Rightarrow> int" where
  "sym_Dy (Pixels w h) = h"
| "sym_Dy (Resized i w h f) = h"
| "sym_Dy (Brightness i v) = (case i of None \<Rightarrow> 0 | Some j \<Rightarrow> sym_Dy j)"
| "sym_Dy (Contrast i v) = (case i of None \<Rightarrow> 0 | Some j \<Rightarrow> sym_Dy j)"
| "sym_Dy (EdgeDetection i v) = (case i of None \<Rightarrow> 0 | Some j \<Rightarrow> sym_Dy j)"

definition sym_extern :: "sym_img extern" where
  "sym_extern =
     \<lparr>image_Decode = sym_Decode,
      Bounds_Dx = sym_Dx,
      Bounds_Dy = sym_Dy,
      adjust_Brightness = (\<lambda>img v. Some (Brightness img v)),
      adjust_Contrast = (\<lambda>img v. Some (Contrast img v)),
      effect_EdgeDetection = (\<lambda>img v. Some (EdgeDetection img v)),
      transform_Resize = (\<lambda>img w h f. Some (Resized img w h f)),
      f64_unrep = (\<lambda>x. - (2 ^ 63))\<rparr>"

section \<open>The specification's notions\<close>

text \<open>
  The kinds that \<^verbatim>\<open>GetEffectFn\<close> knows, in main.go and in the revision of part_001.
\<close>

definition registered :: "string \<Rightarrow> bool" where
  "registered name = (name = ''brightness'' \<or> name = ''contrast'')"

definition registered2 :: "string \<Rightarrow> bool" where
  "registered2 name = (name = ''brightness'' \<or> name = ''contrast'' \<or> name = ''edge-detection'')"

text \<open>
  The specification's \<open>apply\<close>, in its own words: a fold over the instances in pipeline
  order, left to right, each step calling the transform of the kind with the value on the
  image produced by the previous step. \<open>kind_transform\<close> is the transform that the external
  library provides for a kind.
\<close>

definition kind_transform :: "'img extern \<Rightarrow> string \<Rightarrow> float64 \<Rightarrow> 'img image \<Rightarrow> 'img image" where
  "kind_transform X name v img =
     (if name = ''brightness'' then adjust_Brightness X img v
      else if name = ''contrast'' then adjust_Contrast X img v
      else if name = ''edge-detection'' then effect_EdgeDetection X img v
      else img)"

definition apply_spec :: "'img extern \<Rightarrow> 'img image \<Rightarrow> (string \<times> float64) list \<Rightarrow> 'img image" where
  "apply_spec X base insts = foldl (\<lambda>img (name, v). kind_transform X name v img) base insts"

text \<open>
  A transformation as \<^verbatim>\<open>AddEffectCallback\<close> of part_001 builds it and
  \<^verbatim>\<open>ChangeEffectsCallback\<close> keeps it: \<^verbatim>\<open>Fn\<close> is \<^verbatim>\<open>GetEffectFn\<close> of its own effect, and
  there is a value.
\<close>

definition built_by :: "'img extern \<Rightarrow> 'img Transformation \<Rightarrow> bool" where
  "built_by X t = (Fn_t t = GetEffectFn2 X (Effect_t t) \<and> Values_t t \<noteq> [])"

text \<open>
  The scenario of the specification: the user adds contrast, then brightness, and moves
  the two sliders to \<open>cv\<close> and \<open>bv\<close>.
\<close>

definition contrast_then_brightness :: "'img JsApp \<Rightarrow> float64 \<Rightarrow> float64 \<Rightarrow> 'img JsApp" where
  "contrast_then_brightness jsa cv bv =
     (let (jsa1, c) = AddEffectCallback jsa ''contrast'';
          (jsa2, b) = AddEffectCallback jsa1 ''brightness'';
          jsa3 = ChangeEffectsCallback jsa2 (Id_e c) cv
      in ChangeEffectsCallback jsa3 (Id_e b) bv)"

definition contrast_then_brightness2 ::
  "'img extern \<Rightarrow> 'img JsApp2 \<Rightarrow> float64 \<Rightarrow> float64 \<Rightarrow> 'img JsApp2" where
  "contrast_then_brightness2 X jsa cv bv =
     (let (jsa1, c) = AddEffectCallback2 X jsa ''contrast'';
          (jsa2, b) = AddEffectCallback2 X jsa1 ''brightness'';
          jsa3 = ChangeEffectsCallback2 jsa2 (Id_t c) cv
      in ChangeEffectsCallback2 jsa3 (Id_t b) bv)"

text \<open>
  The range of an effect, as the rendered slider shows it: from \<open>-2\<close> to \<open>2\<close>. A value
  lies in a range when it is finite and between the bounds.
\<close>

definition within_range :: "int \<Rightarrow> int \<Rightarrow> float64 \<Rightarrow> bool" where
  "within_range lo hi v = (case v of Fin r \<Rightarrow> of_int lo \<le> r \<and> r \<le> of_int hi | _ \<Rightarrow> False)"

text \<open>
  A load has failed, for its caller, when the program panicked or wrote an error to the
  console: \<^verbatim>\<open>NewSourceImgFromString\<close> returns no value.
\<close>

definition load_failed :: "panic + ('img App \<times> string list) \<Rightarrow> bool" where
  "load_failed r = (case r of Inl p \<Rightarrow> True | Inr (app, console) \<Rightarrow> console \<noteq> [])"

section \<open>Sessions as runs of events\<close>

text \<open>
  The events of the user interface that change the pipeline: a click on the add button
  with an option selected, and a change of a slider. A run hands a list of events to the
  listeners, one after the other, as the single-threaded event loop does:
  \<open>run_listeners\<close> to those of the second revision in main.go, \<open>run2\<close> to the callbacks
  of part_001.
\<close>

datatype event = Add string | Change string float64

fun step_listeners :: "'img App \<Rightarrow> event \<Rightarrow> 'img App" where
  "step_listeners app (Add selected) = fst (addEffectBtnClickListener app selected)"
| "step_listeners app (Change ident v) = effectsChangeListener app ident v"

definition run_listeners :: "'img App \<Rightarrow> event list \<Rightarrow> 'img App" where
  "run_listeners app evs = foldl step_listeners app evs"

fun step2 :: "'img extern \<Rightarrow> 'img JsApp2 \<Rightarrow> event \<Rightarrow> 'img JsApp2" where
  "step2 X jsa (Add selected) = fst (AddEffectCallback2 X jsa selected)"
| "step2 X jsa (Change ident v) = ChangeEffectsCallback2 jsa ident v"

definition run2 :: "'img extern \<Rightarrow> 'img JsApp2 \<Rightarrow> event list \<Rightarrow> 'img JsApp2" where
  "run2 X jsa evs = foldl (step2 X) jsa evs"

text \<open>The options of the selector carry the names of kinds: \<open>adds_only known\<close> holds of
  an event that adds nothing but a name that is \<open>known\<close>.\<close>

fun adds_only :: "(string \<Rightarrow> bool) \<Rightarrow> event \<Rightarrow> bool" where
  "adds_only known (Add selected) = known selected"
| "adds_only known (Change ident v) = True"

definition is_digit :: "char \<Rightarrow> bool" where
  "is_digit c = (c \<in> set ''0123456789'')"

definition no_trailing_digit :: "string \<Rightarrow> bool" where
  "no_trailing_digit s = (s = [] \<or> \<not> is_digit (last s))"

text \<open>
  The invariant of a counter \<open>c\<close> and the identifiers issued from it: the counter is not
  negative, the identifiers are distinct, and each is a name without a trailing digit
  followed by the decimal digits of a counter value that has been used. The counter is an
  unbounded integer here: every increment of the 64-bit counter comes with one more
  instance in memory, so it does not reach \<open>2^63\<close>.
\<close>

definition ids_issued :: "int \<Rightarrow> string list \<Rightarrow> bool" where
  "ids_issued c ids =
     (0 \<le> c \<and> distinct ids \<and>
      (\<forall>i\<in>set ids. \<exists>name k. i = name @ FormatUint k \<and> no_trailing_digit name \<and>
                                0 < k \<and> int k \<le> c))"

section \<open>Sessions for evaluation\<close>

text \<open>A session holding a 100x100 image with a contrast and a brightness effect.\<close>

definition pipeline_cb :: "sym_img App" where
  "pipeline_cb =
     \<lparr>cnt = 2, dstWidth = 200, sourceImg = Some (Pixels 100 100),
      resizedImg = Some (Resized (Some (Pixels 100 100)) 200 200 Linear),
      effects = [\<lparr>Id_e = ''contrast0'', Name_e = ''contrast'', Value_e = Fin 1, Min_e = 2, Max_e = 2\<rparr>,
                 \<lparr>Id_e = ''brightness0'', Name_e = ''brightness'', Value_e = Fin (1 / 2),
                  Min_e = 2, Max_e = 2\<rparr>]\<rparr>"

text \<open>A session that holds a decoded 400x300 image and its preview.\<close>

definition loaded_400x300 :: "sym_img App" where
  "loaded_400x300 =
     \<lparr>cnt = 0, dstWidth = 200, sourceImg = Some (Pixels 400 300),
      resizedImg = Some (Resized (Some (Pixels 400 300)) 200 150 Linear), effects = []\<rparr>"

text \<open>A session whose second effect has a name that \<^verbatim>\<open>GetEffectFn\<close> does not know, and
  the transformation that part_001 builds for that name.\<close>

definition pipeline_sepia :: "sym_img App" where
  "pipeline_sepia =
     \<lparr>cnt = 2, dstWidth = 200, sourceImg = Some (Pixels 100 100),
      resizedImg = Some (Resized (Some (Pixels 100 100)) 200 200 Linear),
      effects = [\<lparr>Id_e = ''contrast0'', Name_e = ''contrast'', Value_e = Fin 1, Min_e = 2, Max_e = 2\<rparr>,
                 \<lparr>Id_e = ''sepia0'', Name_e = ''sepia'', Value_e = Fin 0, Min_e = 2, Max_e = 2\<rparr>]\<rparr>"

definition sepia2 :: "sym_img Transformation" where
  "sepia2 = snd (AddEffectCallback2 sym_extern (NewJsApp2 NewApp2) ''sepia'')"

text \<open>A new session after one click on the add button with brightness selected.\<close>

definition one_brightness :: "sym_img JsApp" where
  "one_brightness = fst (AddEffectCallback (NewJsApp NewApp) ''brightness'')"

definition one_brightness2 :: "sym_img JsApp2" where
  "one_brightness2 = fst (AddEffectCallback2 sym_extern (NewJsApp2 NewApp2) ''brightness'')"

text \<open>A new session after two clicks on the add button with brightness selected.\<close>

definition two_brightness :: "sym_img JsApp" where
  "two_brightness = fst (AddEffectCallback one_brightness ''brightness'')"

section \<open>Properties\<close>

lemma Update_loop_length: "length (Update_loop es ident v) = length es"
  by (induction es) auto

subsection \<open>The effect function and the fold of PreviewImg\<close>

lemma GetEffectFn_None: "(GetEffectFn X eff = None) = (\<not> registered (Name_e eff))"
  by (simp add: GetEffectFn_def registered_def)

lemma GetEffectFn_registered:
  "registered (Name_e eff) \<Longrightarrow>
     GetEffectFn X eff = Some (kind_transform X (Name_e eff) (Value_e eff))"
  by (auto simp: GetEffectFn_def registered_def kind_transform_def)

lemma PreviewImg_loop_spec:
  "\<forall>eff\<in>set effs. registered (Name_e eff) \<Longrightarrow>
     PreviewImg_loop X img effs =
       Inr (apply_spec X img (map (\<lambda>e. (Name_e e, Value_e e)) effs))"
  by (induction effs arbitrary: img) (auto simp: apply_spec_def GetEffectFn_registered)

lemma PreviewImg_loop_nil_call:
  "(PreviewImg_loop X img effs = Inl NilFuncCall) = (\<exists>eff\<in>set effs. \<not> registered (Name_e eff))"
proof (induction effs arbitrary: img)
  case Nil
  then show ?case by simp
next
  case (Cons eff effs)
  show ?case
  proof (cases "GetEffectFn X eff")
    case None
    then show ?thesis using GetEffectFn_None [of X eff] by simp
  next
    case (Some f)
    then show ?thesis using GetEffectFn_None [of X eff] Cons.IH by simp
  qed
qed

lemma PreviewImg_loop_panic:
  "PreviewImg_loop X img effs = Inl p \<Longrightarrow> p = NilFuncCall"
  by (induction effs arbitrary: img) (auto split: option.splits)

lemma GetEffectFn2_None: "(GetEffectFn2 X eff values = None) = (\<not> registered2 (Name_e2 eff))"
  by (simp add: GetEffectFn2_def registered2_def)

lemma Transform_built:
  "built_by X t \<Longrightarrow> registered2 (Name_e2 (Effect_t t)) \<Longrightarrow>
     \<exists>f. Transform t = Some f \<and>
       (\<forall>img. f img = Inr (kind_transform X (Name_e2 (Effect_t t)) (hd (Values_t t)) img))"
  by (cases "Values_t t")
     (auto simp: built_by_def Transform_def GetEffectFn2_def registered2_def kind_transform_def)

lemma PreviewImg2_loop_spec:
  "\<forall>t\<in>set ts. built_by X t \<and> registered2 (Name_e2 (Effect_t t)) \<Longrightarrow>
     PreviewImg2_loop img ts =
       Inr (apply_spec X img (map (\<lambda>t. (Name_e2 (Effect_t t), hd (Values_t t))) ts))"
proof (induction ts arbitrary: img)
  case Nil
  then show ?case by (simp add: apply_spec_def)
next
  case (Cons t ts)
  from Cons.prems obtain f where f: "Transform t = Some f"
    "\<And>img. f img = Inr (kind_transform X (Name_e2 (Effect_t t)) (hd (Values_t t)) img)"
    using Transform_built [of X t] by auto
  from Cons.prems have "\<forall>t\<in>set ts. built_by X t \<and> registered2 (Name_e2 (Effect_t t))" by simp
  from Cons.IH [OF this] f show ?case by (simp add: apply_spec_def)
qed

lemma PreviewImg2_loop_nil_call:
  "\<forall>t\<in>set ts. built_by X t \<Longrightarrow>
     (PreviewImg2_loop img ts = Inl NilFuncCall) = (\<exists>t\<in>set ts. \<not> registered2 (Name_e2 (Effect_t t)))"
proof (induction ts arbitrary: img)
  case Nil
  then show ?case by simp
next
  case (Cons t ts)
  show ?case
  proof (cases "registered2 (Name_e2 (Effect_t t))")
    case True
    with Cons.prems obtain f where f: "Transform t = Some f"
      "\<And>img. f img = Inr (kind_transform X (Name_e2 (Effect_t t)) (hd (Values_t t)) img)"
      using Transform_built [of X t] by auto
    from Cons.prems have "\<forall>t\<in>set ts. built_by X t" by simp
    from Cons.IH [OF this] f True show ?thesis by simp
  next
    case False
    with Cons.prems have "Transform t = None"
      by (simp add: built_by_def Transform_def GetEffectFn2_None)
    with False show ?thesis by simp
  qed
qed

lemma scenario_effects:
  "effects (App_j (contrast_then_brightness (NewJsApp (app\<lparr>effects := []\<rparr>)) cv bv)) =
     [\<lparr>Id_e = ''contrast'' @ Itoa (cnt app), Name_e = ''contrast'', Value_e = cv, Min_e = 2, Max_e = 2\<rparr>,
      \<lparr>Id_e = ''brightness'' @ Itoa (cnt app), Name_e = ''brightness'', Value_e = bv, Min_e = 2, Max_e = 2\<rparr>]"
  by (simp add: contrast_then_brightness_def AddEffectCallback_def ChangeEffectsCallback_def
        NewJsApp_def Append_def Update_def Let_def)

lemma scenario_resizedImg:
  "resizedImg (App_j (contrast_then_brightness (NewJsApp (app\<lparr>effects := []\<rparr>)) cv bv)) = resizedImg app"
  by (simp add: contrast_then_brightness_def AddEffectCallback_def ChangeEffectsCallback_def
        NewJsApp_def Append_def Update_def Let_def)

lemma scenario2_transformations:
  "transformations (App_j2 (contrast_then_brightness2 X (NewJsApp2 (app\<lparr>transformations := []\<rparr>)) cv bv)) =
     [\<lparr>Effect_t = \<lparr>Name_e2 = ''contrast'', Min_e2 = - 2, Max_e2 = 2\<rparr>,
       Id_t = ''contrast'' @ Itoa (cnt2 app + 1), Values_t = [cv],
       Fn_t = GetEffectFn2 X \<lparr>Name_e2 = ''contrast'', Min_e2 = - 2, Max_e2 = 2\<rparr>\<rparr>,
      \<lparr>Effect_t = \<lparr>Name_e2 = ''brightness'', Min_e2 = - 2, Max_e2 = 2\<rparr>,
       Id_t = ''brightness'' @ Itoa (cnt2 app + 2), Values_t = [bv],
       Fn_t = GetEffectFn2 X \<lparr>Name_e2 = ''brightness'', Min_e2 = - 2, Max_e2 = 2\<rparr>\<rparr>]"
  by (simp add: contrast_then_brightness2_def AddEffectCallback2_def ChangeEffectsCallback2_def
        NewJsApp2_def Append2_def Update2_def Let_def add.commute)

lemma scenario2_resizedImg:
  "resizedImg2 (App_j2 (contrast_then_brightness2 X (NewJsApp2 (app\<lparr>transformations := []\<rparr>)) cv bv)) =
     resizedImg2 app"
  by (simp add: contrast_then_brightness2_def AddEffectCallback2_def ChangeEffectsCallback2_def
        NewJsApp2_def Append2_def Update2_def Let_def)

subsection \<open>Pipeline order\<close>

text \<open>
  Claim C4. For every base image and every pipeline of registered kinds, \<^verbatim>\<open>PreviewImg\<close>
  is the fold of the specification: it goes over the instances in pipeline order, left to
  right, and applies the transform of each instance with its current value to the image of
  the previous step. In particular, after adding contrast and then brightness and setting
  their values, the result is brightness applied to contrast applied to the resized image.
  Both hold in main.go and in part_001.
\<close>

theorem PreviewImg_folds_in_pipeline_order:
  "((\<forall>eff\<in>set (effects app). registered (Name_e eff)) \<longrightarrow>
      PreviewImg X app =
        Inr (apply_spec X (resizedImg app) (map (\<lambda>e. (Name_e e, Value_e e)) (effects app))))
   \<and> PreviewImg X (App_j (contrast_then_brightness (NewJsApp (app\<lparr>effects := []\<rparr>)) cv bv)) =
        Inr (adjust_Brightness X (adjust_Contrast X (resizedImg app) cv) bv)
   \<and> ((\<forall>t\<in>set (transformations app2). built_by X t \<and> registered2 (Name_e2 (Effect_t t))) \<longrightarrow>
      PreviewImg2 app2 =
        Inr (apply_spec X (resizedImg2 app2)
               (map (\<lambda>t. (Name_e2 (Effect_t t), hd (Values_t t))) (transformations app2))))
   \<and> PreviewImg2 (App_j2 (contrast_then_brightness2 X
                              (NewJsApp2 (app2\<lparr>transformations := []\<rparr>)) cv bv)) =
        Inr (adjust_Brightness X (adjust_Contrast X (resizedImg2 app2) cv) bv)"
proof (intro conjI impI)
  assume "\<forall>eff\<in>set (effects app). registered (Name_e eff)"
  then show "PreviewImg X app =
      Inr (apply_spec X (resizedImg app) (map (\<lambda>e. (Name_e e, Value_e e)) (effects app)))"
    unfolding PreviewImg_def by (rule PreviewImg_loop_spec)
next
  show "PreviewImg X (App_j (contrast_then_brightness (NewJsApp (app\<lparr>effects := []\<rparr>)) cv bv)) =
      Inr (adjust_Brightness X (adjust_Contrast X (resizedImg app) cv) bv)"
    by (simp add: PreviewImg_def scenario_effects scenario_resizedImg GetEffectFn_def)
next
  assume "\<forall>t\<in>set (transformations app2). built_by X t \<and> registered2 (Name_e2 (Effect_t t))"
  then show "PreviewImg2 app2 =
      Inr (apply_spec X (resizedImg2 app2)
             (map (\<lambda>t. (Name_e2 (Effect_t t), hd (Values_t t))) (transformations app2)))"
    unfolding PreviewImg2_def by (rule PreviewImg2_loop_spec)
next
  show "PreviewImg2 (App_j2 (contrast_then_brightness2 X
                              (NewJsApp2 (app2\<lparr>transformations := []\<rparr>)) cv bv)) =
      Inr (adjust_Brightness X (adjust_Contrast X (resizedImg2 app2) cv) bv)"
    by (simp add: PreviewImg2_def scenario2_transformations scenario2_resizedImg
          Transform_def GetEffectFn2_def)
qed

theorem PreviewImg_folds_in_pipeline_order_witness:
  "list_all registered (map Name_e (effects pipeline_cb)) \<and>
   PreviewImg sym_extern pipeline_cb =
     Inr (Some (Brightness (Some (Contrast (Some (Resized (Some (Pixels 100 100)) 200 200 Linear))
                                   (Fin 1)))
                           (Fin (1 / 2))))"
proof -
  have h: "\<forall>eff\<in>set (effects pipeline_cb). registered (Name_e eff)"
    by (simp add: pipeline_cb_def registered_def)
  from PreviewImg_folds_in_pipeline_order [of pipeline_cb sym_extern, THEN conjunct1, THEN mp, OF h]
  have "PreviewImg sym_extern pipeline_cb =
      Inr (apply_spec sym_extern (resizedImg pipeline_cb)
             (map (\<lambda>e. (Name_e e, Value_e e)) (effects pipeline_cb)))" .
  then show ?thesis
    by (simp add: pipeline_cb_def registered_def apply_spec_def kind_transform_def sym_extern_def)
qed

subsection \<open>The empty pipeline\<close>

text \<open>
  Claim C5. For every base image \<open>I\<close>, \<^verbatim>\<open>PreviewImg\<close> with an empty pipeline returns \<open>I\<close>
  unchanged, in main.go and in part_001.
\<close>

theorem PreviewImg_empty_pipeline:
  "PreviewImg X (app\<lparr>resizedImg := I, effects := []\<rparr>) = Inr I \<and>
   PreviewImg2 (app2\<lparr>resizedImg2 := I, transformations := []\<rparr>) = Inr I"
  by (simp add: PreviewImg_def PreviewImg2_def)

subsection \<open>The call of a missing effect function\<close>

lemma PreviewImg_loop_total:
  "(\<exists>r. PreviewImg_loop X img effs = Inr r) = (\<forall>eff\<in>set effs. registered (Name_e eff))"
proof -
  have "(\<exists>r. PreviewImg_loop X img effs = Inr r) = (PreviewImg_loop X img effs \<noteq> Inl NilFuncCall)"
    by (cases "PreviewImg_loop X img effs") (auto dest: PreviewImg_loop_panic)
  then show ?thesis by (simp add: PreviewImg_loop_nil_call)
qed

lemma AddEffectCallback2_built:
  "built_by X (snd (AddEffectCallback2 X jsa selected))"
  by (simp add: AddEffectCallback2_def built_by_def Let_def)

text \<open>
  Claim C10. \<^verbatim>\<open>GetEffectFn\<close> returns the \<^verbatim>\<open>nil\<close> function exactly for a name that is not a
  registered kind, and \<^verbatim>\<open>PreviewImg\<close> calls it without a guard: it panics on the call of
  \<^verbatim>\<open>nil\<close> exactly when some instance of the pipeline has an unregistered name, and returns
  an image exactly when every name is registered. The same holds in part_001 for
  transformations as its callbacks build them.
\<close>

theorem PreviewImg_unguarded_nil_call:
  "(GetEffectFn X eff = None) = (\<not> registered (Name_e eff)) \<and>
   (PreviewImg X app = Inl NilFuncCall) = (\<exists>eff\<in>set (effects app). \<not> registered (Name_e eff)) \<and>
   ((\<exists>r. PreviewImg X app = Inr r) = (\<forall>eff\<in>set (effects app). registered (Name_e eff))) \<and>
   (GetEffectFn2 X eff2 values = None) = (\<not> registered2 (Name_e2 eff2)) \<and>
   ((\<forall>t\<in>set (transformations app2). built_by X t) \<longrightarrow>
      (PreviewImg2 app2 = Inl NilFuncCall) =
        (\<exists>t\<in>set (transformations app2). \<not> registered2 (Name_e2 (Effect_t t))))"
  by (simp add: GetEffectFn_None GetEffectFn2_None PreviewImg_def PreviewImg2_def
        PreviewImg_loop_nil_call PreviewImg_loop_total PreviewImg2_loop_nil_call)

theorem PreviewImg_unguarded_nil_call_witness:
  "GetEffectFn sym_extern \<lparr>Id_e = ''sepia0'', Name_e = ''sepia'', Value_e = Fin 0, Min_e = 2, Max_e = 2\<rparr> = None \<and>
   PreviewImg sym_extern pipeline_sepia = Inl NilFuncCall \<and>
   list_all (built_by sym_extern) [sepia2] \<and>
   PreviewImg2 ((NewApp2 :: sym_img App2)\<lparr>transformations := [sepia2]\<rparr>) = Inl NilFuncCall"
proof -
  let ?e = "\<lparr>Id_e = ''sepia0'', Name_e = ''sepia'', Value_e = Fin 0, Min_e = 2, Max_e = 2\<rparr>"
  let ?a2 = "(NewApp2 :: sym_img App2)\<lparr>transformations := [sepia2]\<rparr>"
  note T = PreviewImg_unguarded_nil_call [of sym_extern ?e pipeline_sepia _ _ ?a2]
  have b: "built_by sym_extern sepia2"
    unfolding sepia2_def by (rule AddEffectCallback2_built)
  have n: "Name_e2 (Effect_t sepia2) = ''sepia''"
    by (simp add: sepia2_def AddEffectCallback2_def Let_def)
  have 1: "GetEffectFn sym_extern ?e = None"
    using T by (simp add: registered_def)
  have 2: "PreviewImg sym_extern pipeline_sepia = Inl NilFuncCall"
    using T by (simp add: registered_def pipeline_sepia_def)
  have 3: "PreviewImg2 ?a2 = Inl NilFuncCall"
    using T b n by (simp add: registered2_def)
  from 1 2 3 b show ?thesis by simp
qed

subsection \<open>Update\<close>

lemma Itoa_0: "Itoa 0 = ''0''"
  by (simp add: Itoa_def FormatUint.simps digit_char_def)

lemma Itoa_1: "Itoa 1 = ''1''"
  by (simp add: Itoa_def FormatUint.simps digit_char_def)

lemma Update_loop_absent: "\<forall>e\<in>set es. Id_e e \<noteq> ident \<Longrightarrow> Update_loop es ident v = es"
  by (induction es) auto

lemma Update_loop_first:
  "i < length es \<Longrightarrow> Id_e (es ! i) = ident \<Longrightarrow> \<forall>j<i. Id_e (es ! j) \<noteq> ident \<Longrightarrow>
     Update_loop es ident v = es[i := (es ! i)\<lparr>Value_e := v\<rparr>]"
proof (induction es arbitrary: i)
  case Nil
  then show ?case by simp
next
  case (Cons e es)
  show ?case
  proof (cases i)
    case 0
    with Cons.prems show ?thesis by simp
  next
    case (Suc k)
    with Cons.prems have k: "k < length es" "Id_e (es ! k) = ident" by simp_all
    from Cons.prems Suc have "\<forall>j<k. Id_e (es ! j) \<noteq> ident" by auto
    from Cons.IH [OF k this] have IH: "Update_loop es ident v = es[k := (es ! k)\<lparr>Value_e := v\<rparr>]" .
    from Cons.prems Suc have "Id_e e \<noteq> ident" by auto
    with IH Suc show ?thesis by simp
  qed
qed

text \<open>
  Claim C7. \<^verbatim>\<open>Update\<close> with an identifier that no instance of the pipeline has is a
  no-op: it returns normally and the session, and so every instance, value, the length
  and the order of the pipeline, is unchanged.
\<close>

theorem Update_absent_id_is_noop:
  "(\<forall>e\<in>set (effects app). Id_e e \<noteq> ident) \<longrightarrow>
     Update app ident v = app \<and> ChangeEffectsCallback (jsa\<lparr>App_j := app\<rparr>) ident v = jsa\<lparr>App_j := app\<rparr>"
  by (simp add: Update_def ChangeEffectsCallback_def Update_loop_absent)

theorem Update_absent_id_is_noop_witness:
  "list_all (\<lambda>e. Id_e e \<noteq> ''sepia7'') (effects pipeline_cb) \<and>
   Update pipeline_cb ''sepia7'' (Fin 1) = pipeline_cb"
proof -
  have h: "\<forall>e\<in>set (effects pipeline_cb). Id_e e \<noteq> ''sepia7''"
    by (simp add: pipeline_cb_def)
  from Update_absent_id_is_noop [of pipeline_cb "''sepia7''" "Fin 1", THEN mp, OF h]
  have "Update pipeline_cb ''sepia7'' (Fin 1) = pipeline_cb" by simp
  moreover have "list_all (\<lambda>e. Id_e e \<noteq> ''sepia7'') (effects pipeline_cb)"
    by (simp add: pipeline_cb_def)
  ultimately show ?thesis by simp
qed

text \<open>
  Against claim C3 as stated: after one brightness effect is added, whose slider runs
  from \<open>-2\<close> to \<open>2\<close>, an update of its value to \<open>5\<close> stores \<open>5\<close>, which is outside
  the range, in main.go and in part_001.
\<close>

theorem Update_clamp_counterexample:
  "\<not> within_range (- 2) 2
       (Value_e (hd (effects (App_j (ChangeEffectsCallback one_brightness ''brightness0'' (Fin 5)))))) \<and>
   \<not> within_range (- 2) 2
       (hd (Values_t (hd (transformations
          (App_j2 (ChangeEffectsCallback2 one_brightness2 ''brightness1'' (Fin 5)))))))"
  by (simp add: within_range_def one_brightness_def one_brightness2_def AddEffectCallback_def
        AddEffectCallback2_def ChangeEffectsCallback_def ChangeEffectsCallback2_def
        NewJsApp_def NewJsApp2_def NewApp_def NewApp2_def Append_def Append2_def Update_def
        Update2_def Let_def Itoa_0 Itoa_1)

text \<open>
  Claim C3, amended. \<^verbatim>\<open>Update\<close> does not clamp: for every value \<open>v\<close>, if \<open>i\<close> is the
  first position of the pipeline whose instance has the identifier, the pipeline after
  \<^verbatim>\<open>Update\<close> is the old one with the value at \<open>i\<close> replaced by \<open>v\<close> itself, whether or
  not \<open>v\<close> lies in the range of the kind, and the next \<^verbatim>\<open>PreviewImg\<close> runs over that
  pipeline.
\<close>

theorem Update_stores_value_unclamped:
  "i < length (effects app) \<and> Id_e (effects app ! i) = ident \<and>
   (\<forall>j<i. Id_e (effects app ! j) \<noteq> ident) \<longrightarrow>
     effects (Update app ident v) = (effects app)[i := (effects app ! i)\<lparr>Value_e := v\<rparr>] \<and>
     Value_e (effects (Update app ident v) ! i) = v \<and>
     PreviewImg X (Update app ident v) =
       PreviewImg_loop X (resizedImg app) ((effects app)[i := (effects app ! i)\<lparr>Value_e := v\<rparr>])"
  by (auto simp: Update_def PreviewImg_def Update_loop_first)

theorem Update_stores_value_unclamped_witness:
  "effects (Update pipeline_cb ''brightness0'' (Fin 5)) =
     [\<lparr>Id_e = ''contrast0'', Name_e = ''contrast'', Value_e = Fin 1, Min_e = 2, Max_e = 2\<rparr>,
      \<lparr>Id_e = ''brightness0'', Name_e = ''brightness'', Value_e = Fin 5, Min_e = 2, Max_e = 2\<rparr>] \<and>
   PreviewImg sym_extern (Update pipeline_cb ''brightness0'' (Fin 5)) =
     Inr (Some (Brightness (Some (Contrast (Some (Resized (Some (Pixels 100 100)) 200 200 Linear))
                                   (Fin 1)))
                           (Fin 5)))"
proof -
  have h: "1 < length (effects pipeline_cb) \<and> Id_e (effects pipeline_cb ! 1) = ''brightness0'' \<and>
      (\<forall>j<1. Id_e (effects pipeline_cb ! j) \<noteq> ''brightness0'')"
    by (simp add: pipeline_cb_def)
  from Update_stores_value_unclamped [of 1 pipeline_cb "''brightness0''" "Fin 5" sym_extern,
      THEN mp, OF h]
  show ?thesis
    by (simp add: pipeline_cb_def GetEffectFn_def sym_extern_def)
qed

subsection \<open>Append\<close>

text \<open>
  Against claim C2 as stated: adding an effect named \<open>sepia\<close>, which is not a registered
  kind, changes the length of the pipeline, in main.go and in part_001.
\<close>

theorem Append_unknown_kind_counterexample:
  "\<not> registered ''sepia'' \<and>
   GetEffectFn sym_extern (snd (AddEffectCallback (NewJsApp NewApp) ''sepia'')) = None \<and>
   length (effects (App_j (fst (AddEffectCallback (NewJsApp (NewApp :: sym_img App)) ''sepia'')))) \<noteq>
     length (effects (App_j (NewJsApp (NewApp :: sym_img App)))) \<and>
   \<not> registered2 ''sepia'' \<and>
   length (transformations (App_j2 (fst (AddEffectCallback2 sym_extern (NewJsApp2 NewApp2) ''sepia'')))) \<noteq>
     length (transformations (App_j2 (NewJsApp2 (NewApp2 :: sym_img App2))))"
  by (simp add: registered_def registered2_def GetEffectFn_def AddEffectCallback_def
        AddEffectCallback2_def NewJsApp_def NewJsApp2_def NewApp_def NewApp2_def Append_def
        Append2_def Let_def)

text \<open>
  Claim C2, amended. \<^verbatim>\<open>Append\<close> and \<^verbatim>\<open>AddEffectCallback\<close> never fail and never look
  the kind up: for every name, registered or not, the new instance carries that name and
  is added at the end of the pipeline, whose length grows by one.
\<close>

theorem Append_never_fails:
  "effects (Append app eff) = effects app @ [eff] \<and>
   length (effects (Append app eff)) = Suc (length (effects app)) \<and>
   effects (App_j (fst (AddEffectCallback jsa selected))) =
     effects (App_j jsa) @ [snd (AddEffectCallback jsa selected)] \<and>
   Name_e (snd (AddEffectCallback jsa selected)) = selected \<and>
   transformations (Append2 app2 t) = transformations app2 @ [t] \<and>
   transformations (App_j2 (fst (AddEffectCallback2 X jsa2 selected))) =
     transformations (App_j2 jsa2) @ [snd (AddEffectCallback2 X jsa2 selected)] \<and>
   Name_e2 (Effect_t (snd (AddEffectCallback2 X jsa2 selected))) = selected"
  by (simp add: Append_def Append2_def AddEffectCallback_def AddEffectCallback2_def Let_def)

subsection \<open>Rounding to binary64\<close>

lemma pow2_powi: "pow2 e = 2 powi e"
  by (simp add: pow2_def power_int_def power_inverse [symmetric] inverse_eq_divide
        power_one_over)

lemma pow2_pos: "0 < pow2 e"
  by (simp add: pow2_powi)

lemma pow2_add: "pow2 (a + b) = pow2 a * pow2 b"
  by (simp add: pow2_powi power_int_add)

lemma pow2_Suc: "pow2 (e + 1) = 2 * pow2 e"
  by (simp add: pow2_powi power_int_add_1)

lemma pow2_mono: "a \<le> b \<Longrightarrow> pow2 a \<le> pow2 b"
  by (simp add: pow2_powi power_int_increasing)

lemma pow2_strict_mono: "a < b \<Longrightarrow> pow2 a < pow2 b"
  by (simp add: pow2_powi power_int_strict_increasing)

lemma pow2_less_cancel: "pow2 a < pow2 b \<Longrightarrow> a < b"
  using pow2_mono [of b a] by (cases "a < b") auto

lemma pow2_nat: "0 \<le> e \<Longrightarrow> pow2 e = 2 ^ nat e"
  by (simp add: pow2_def)

lemma pow2_neg: "0 \<le> e \<Longrightarrow> pow2 (- e) = 1 / 2 ^ nat e"
  by (cases "e = 0") (simp_all add: pow2_def)

lemma ilog2_bounds:
  assumes "0 < x"
  shows "pow2 (ilog2 x) \<le> x \<and> x < pow2 (ilog2 x + 1)"
proof (cases "1 \<le> x")
  case True
  define n where "n = \<lfloor>x\<rfloor>"
  from True have n: "0 < n" by (simp add: n_def)
  then have b1: "1 \<le> bitlen n" by (simp add: bitlen_alt_def)
  from bitlen_bounds [OF n] have lo: "2 ^ nat (bitlen n - 1) \<le> n" and hi: "n < 2 ^ nat (bitlen n)"
    by simp_all
  have e: "ilog2 x = bitlen n - 1" using True by (simp add: ilog2_def n_def)
  have nx: "(of_int n :: rat) \<le> x" by (simp add: n_def)
  from lo have "(of_int (2 ^ nat (bitlen n - 1)) :: rat) \<le> of_int n"
    by (simp only: of_int_le_iff)
  then have "(2::rat) ^ nat (bitlen n - 1) \<le> of_int n" by simp
  from order_trans [OF this nx] have 1: "pow2 (ilog2 x) \<le> x"
    using b1 by (simp add: e pow2_nat)
  from hi have "n + 1 \<le> 2 ^ nat (bitlen n)" by simp
  then have "(of_int (n + 1) :: rat) \<le> of_int (2 ^ nat (bitlen n))"
    by (simp only: of_int_le_iff)
  then have up: "(of_int (n + 1) :: rat) \<le> 2 ^ nat (bitlen n)" by simp
  have "x < of_int (n + 1)" using floor_correct [of x] by (simp add: n_def)
  from less_le_trans [OF this up] have "x < 2 ^ nat (bitlen n)" .
  then have 2: "x < pow2 (ilog2 x + 1)" using b1 by (simp add: e pow2_nat)
  from 1 2 show ?thesis ..
next
  case False
  then have x1: "x < 1" by simp
  define y where "y = \<lceil>1 / x\<rceil>"
  from assms x1 have "1 < 1 / x" by (simp add: field_simps)
  then have y2: "2 \<le> y" unfolding y_def by (simp add: less_ceiling_iff [symmetric])
  then have n: "0 < y - 1" by simp
  then have b1: "1 \<le> bitlen (y - 1)" by (simp add: bitlen_alt_def)
  from bitlen_bounds [OF n]
  have lo: "2 ^ nat (bitlen (y - 1) - 1) \<le> y - 1" and hi: "y - 1 < 2 ^ nat (bitlen (y - 1))"
    by simp_all
  have e: "ilog2 x = - bitlen (y - 1)" using False by (simp add: ilog2_def y_def)
  from hi have "y \<le> 2 ^ nat (bitlen (y - 1))" by simp
  then have "(of_int y :: rat) \<le> of_int (2 ^ nat (bitlen (y - 1)))"
    by (simp only: of_int_le_iff)
  then have up: "(of_int y :: rat) \<le> 2 ^ nat (bitlen (y - 1))" by simp
  have "1 / x \<le> of_int y" by (simp add: y_def)
  from order_trans [OF this up] have "1 / x \<le> 2 ^ nat (bitlen (y - 1))" .
  with assms have "1 / 2 ^ nat (bitlen (y - 1)) \<le> x"
    by (simp add: field_simps)
  then have 1: "pow2 (ilog2 x) \<le> x" using b1 by (simp add: e pow2_neg)
  from lo have "(of_int (2 ^ nat (bitlen (y - 1) - 1)) :: rat) \<le> of_int (y - 1)"
    by (simp only: of_int_le_iff)
  then have dn: "(2::rat) ^ nat (bitlen (y - 1) - 1) \<le> of_int (y - 1)" by simp
  have "of_int (y - 1) < 1 / x"
    unfolding y_def using ceiling_correct [of "1 / x"] by simp
  from le_less_trans [OF dn this] have "2 ^ nat (bitlen (y - 1) - 1) < 1 / x" .
  with assms have "x < 1 / 2 ^ nat (bitlen (y - 1) - 1)"
    by (simp add: field_simps)
  moreover have "pow2 (ilog2 x + 1) = 1 / 2 ^ nat (bitlen (y - 1) - 1)"
    using b1 pow2_neg [of "bitlen (y - 1) - 1"] by (simp add: e)
  ultimately have 2: "x < pow2 (ilog2 x + 1)" by simp
  from 1 2 show ?thesis ..
qed

lemma ilog2_unique:
  assumes "pow2 e \<le> x" "x < pow2 (e + 1)"
  shows "ilog2 x = e"
proof -
  from assms pow2_pos [of e] have x: "0 < x" by simp
  from ilog2_bounds [OF x] have b: "pow2 (ilog2 x) \<le> x" "x < pow2 (ilog2 x + 1)" by simp_all
  from b(1) assms(2) have "pow2 (ilog2 x) < pow2 (e + 1)" by simp
  then have 1: "ilog2 x < e + 1" by (rule pow2_less_cancel)
  from assms(1) b(2) have "pow2 e < pow2 (ilog2 x + 1)" by simp
  then have 2: "e < ilog2 x + 1" by (rule pow2_less_cancel)
  from 1 2 show ?thesis by simp
qed

lemma round_half_even_error: "\<bar>of_int (round_half_even y) - y\<bar> \<le> 1 / 2"
proof -
  have "of_int \<lfloor>y\<rfloor> \<le> y" "y < of_int \<lfloor>y\<rfloor> + 1" by linarith+
  then show ?thesis
    by (auto simp: round_half_even_def Let_def abs_le_iff)
qed

lemma round_half_even_unique:
  assumes "\<bar>y - of_int m\<bar> < 1 / 2"
  shows "round_half_even y = m"
proof -
  have e: "\<bar>of_int (round_half_even y) - y\<bar> \<le> 1 / 2" by (rule round_half_even_error)
  have "\<bar>(of_int (round_half_even y) :: rat) - of_int m\<bar> < 1" using assms e by linarith
  then have "\<bar>of_int (round_half_even y - m) :: rat\<bar> < 1" by simp
  then have "\<bar>round_half_even y - m\<bar> < 1"
    by (metis of_int_abs of_int_less_1_iff)
  then show ?thesis by simp
qed

lemma f64_round_cert:
  assumes "pow2 e \<le> x" "x < pow2 (e + 1)" "- 1022 \<le> e" "e \<le> 1022"
    and "\<bar>x / pow2 (e - 52) - of_int m\<bar> < 1 / 2"
  shows "f64_round x = Fin (of_int m * pow2 (e - 52))"
proof -
  from assms pow2_pos [of e] have x: "0 < x" by simp
  have il: "ilog2 \<bar>x\<bar> = e" using ilog2_unique [OF assms(1,2)] x by simp
  have r: "round_half_even (x / pow2 (e - 52)) = m"
    by (rule round_half_even_unique) (rule assms(5))
  have u: "0 < pow2 (e - 52)" by (rule pow2_pos)
  from assms(5) have "of_int m < x / pow2 (e - 52) + 1 / 2" by linarith
  then have "of_int m * pow2 (e - 52) < x + pow2 (e - 52) / 2"
    using u by (simp add: field_simps)
  also have "\<dots> < pow2 (e + 1) + pow2 (e + 1)"
    using assms(2) pow2_strict_mono [of "e - 52" "e + 1"] u by linarith
  also have "\<dots> = pow2 (e + 2)"
    using pow2_Suc [of "e + 1"] by (simp add: add.commute)
  also have "\<dots> \<le> pow2 1024" using assms(4) by (intro pow2_mono) simp
  finally have nov: "\<not> pow2 1024 \<le> of_int m * pow2 (e - 52)" by simp
  from x il r nov assms(3) show ?thesis
    by (simp add: f64_round_def Let_def max_def)
qed

lemma ilog2_nonneg: "1 \<le> x \<Longrightarrow> 0 \<le> ilog2 x"
proof -
  assume x: "1 \<le> x"
  then have "0 < \<lfloor>x\<rfloor>" by simp
  then have "1 \<le> bitlen \<lfloor>x\<rfloor>" by (simp add: bitlen_alt_def)
  with x show ?thesis by (simp add: ilog2_def)
qed

lemma f64_round_0: "f64_round 0 = Fin 0"
  by (simp add: f64_round_def)

lemma f64_round_int:
  assumes "0 \<le> n" "n < 2 ^ 53"
  shows "f64_round (of_int n) = Fin (of_int n)"
proof (cases "n = 0")
  case True
  then show ?thesis by (simp add: f64_round_0)
next
  case False
  with assms have n: "1 \<le> n" by simp
  define x :: rat where "x = of_int n"
  define e where "e = ilog2 x"
  have x1: "1 \<le> x" using n by (simp add: x_def)
  then have x0: "0 < x" by simp
  from ilog2_bounds [OF x0] have b: "pow2 e \<le> x" "x < pow2 (e + 1)" by (simp_all add: e_def)
  have e0: "0 \<le> e" unfolding e_def using x1 by (rule ilog2_nonneg)
  have "x < pow2 53" using assms(2) by (simp add: x_def pow2_def)
  with b(1) have "pow2 e < pow2 53" by simp
  then have e53: "e < 53" by (rule pow2_less_cancel)
  define k where "k = nat (52 - e)"
  have u: "pow2 (e - 52) = 1 / 2 ^ k"
    using pow2_neg [of "52 - e"] e53 by (simp add: k_def)
  have "x / pow2 (e - 52) = of_int (n * 2 ^ k)" by (simp add: u x_def)
  then have c: "\<bar>x / pow2 (e - 52) - of_int (n * 2 ^ k)\<bar> < 1 / 2" by simp
  from e0 e53 have "- 1022 \<le> e" "e \<le> 1022" by simp_all
  from f64_round_cert [OF b this c] show ?thesis by (simp add: u x_def)
qed

lemma f64_of_int_exact: "0 \<le> n \<Longrightarrow> n < 2 ^ 53 \<Longrightarrow> f64_of_int n = Fin (of_int n)"
  by (simp add: f64_of_int_def f64_round_int)

lemma f64_round_rel_error:
  assumes lo: "pow2 (- 1022) \<le> x" and hi: "x < pow2 1023"
  shows "\<exists>r. f64_round x = Fin r \<and> \<bar>r - x\<bar> \<le> x * pow2 (- 53)"
proof -
  from lo pow2_pos [of "- 1022"] have x0: "0 < x" by simp
  define e where "e = ilog2 x"
  from ilog2_bounds [OF x0] have b: "pow2 e \<le> x" "x < pow2 (e + 1)" by (simp_all add: e_def)
  from lo b(2) have "pow2 (- 1022) < pow2 (e + 1)" by simp
  then have "- 1022 < e + 1" by (rule pow2_less_cancel)
  then have elo: "- 1022 \<le> e" by simp
  from b(1) hi have "pow2 e < pow2 1023" by simp
  then have "e < 1023" by (rule pow2_less_cancel)
  then have ehi: "e \<le> 1022" by simp
  define u where "u = pow2 (e - 52)"
  define m where "m = round_half_even (x / u)"
  have u0: "0 < u" by (simp add: u_def pow2_pos)
  have "\<bar>of_int m - x / u\<bar> \<le> 1 / 2" unfolding m_def by (rule round_half_even_error)
  then have "\<bar>of_int m - x / u\<bar> * u \<le> 1 / 2 * u" using u0 by (intro mult_right_mono) simp_all
  moreover have "of_int m * u - x = (of_int m - x / u) * u"
    using u0 by (simp add: field_simps)
  then have "\<bar>of_int m - x / u\<bar> * u = \<bar>of_int m * u - x\<bar>"
    using u0 by (simp add: abs_mult)
  ultimately have err: "\<bar>of_int m * u - x\<bar> \<le> u / 2" by simp
  have "pow2 e = pow2 (e - 52 + 52)" by simp
  also have "\<dots> = u * pow2 52" unfolding u_def by (rule pow2_add)
  finally have "pow2 e = u * pow2 52" .
  moreover have "pow2 52 = 2 ^ 52" by (simp add: pow2_def)
  ultimately have pe: "pow2 e = u * 2 ^ 52" by simp
  have p53: "pow2 (- 53) = 1 / 2 ^ 53" by (simp add: pow2_def)
  have "u / 2 = pow2 e * pow2 (- 53)" by (simp add: pe p53)
  also have "\<dots> \<le> x * pow2 (- 53)" using b(1) pow2_pos [of "- 53"] by (intro mult_right_mono) simp_all
  finally have u2: "u / 2 \<le> x * pow2 (- 53)" .
  have "of_int m * u \<le> x + u / 2" using err by linarith
  also have "u / 2 < pow2 (e + 1)" using pe pow2_Suc [of e] u0 by simp
  then have "x + u / 2 < pow2 (e + 1) + pow2 (e + 1)" using b(2) by linarith
  also have "\<dots> = pow2 (e + 2)" using pow2_Suc [of "e + 1"] by (simp add: add.commute)
  also have "\<dots> \<le> pow2 1024" using ehi by (intro pow2_mono) simp
  finally have nov: "\<not> pow2 1024 \<le> of_int m * u" by simp
  have "f64_round x = Fin (of_int m * u)"
    using x0 elo nov by (simp add: f64_round_def Let_def max_def e_def [symmetric] u_def [symmetric] m_def [symmetric])
  with err u2 show ?thesis by auto
qed

subsection \<open>The height of the preview\<close>

lemma ceiling_between: "of_int q < (p::rat) \<Longrightarrow> p < of_int q + 1 \<Longrightarrow> \<lceil>p\<rceil> = q + 1"
  by (simp add: ceiling_unique)

lemma dstHeight_of_zero_height:
  assumes "0 < w" "w < 2 ^ 53"
  shows "dstHeight_of u w 0 200 = 0"
proof -
  have w: "f64_of_int w = Fin (of_int w)" using assms by (simp add: f64_of_int_exact)
  have z: "f64_of_int 0 = Fin 0" by (simp add: f64_of_int_exact)
  have d: "f64_of_int 200 = Fin 200" using f64_of_int_exact [of 200] by simp
  show ?thesis using assms
    by (simp add: dstHeight_of_def w z d f64_round_0 int_of_f64_def)
qed

lemma dstHeight_of_product:
  assumes w: "0 < w" "w < 2 ^ 53" and h: "0 < h" "h < 2 ^ 43"
  shows "\<exists>p::rat. dstHeight_of u w h 200 = int_of_f64 u (Fin (of_int \<lceil>p\<rceil>)) \<and>
             \<bar>p - of_int (200 * h) / of_int w\<bar> < 1 / of_int w"
proof -
  define x1 :: rat where "x1 = of_int h / of_int w"
  define eps :: rat where "eps = pow2 (- 53)"
  have eps: "eps = 1 / 2 ^ 53" by (simp add: eps_def pow2_def)
  have wq: "(0::rat) < of_int w" "(of_int w :: rat) < 2 ^ 53" "(1::rat) \<le> of_int w"
    using w by (simp_all add: of_int_less_numeral_power_cancel_iff)
  have hq: "(1::rat) \<le> of_int h" "(of_int h :: rat) < 2 ^ 43"
    using h by (simp_all add: of_int_less_numeral_power_cancel_iff)
  have x1pos: "0 < x1" using wq hq by (simp add: x1_def)
  have x1lo: "eps \<le> x1"
  proof -
    have "eps \<le> 1 / (of_int w :: rat)" using wq by (simp add: eps field_simps)
    also have "\<dots> \<le> x1" using wq hq by (simp add: x1_def field_simps)
    finally show ?thesis .
  qed
  have x1hi: "x1 < 2 ^ 43"
  proof -
    have "x1 \<le> of_int h" using wq hq by (simp add: x1_def field_simps)
    also have "\<dots> < 2 ^ 43" by (rule hq)
    finally show ?thesis .
  qed
  have epslo: "pow2 (- 1022) \<le> eps" unfolding eps_def by (rule pow2_mono) simp
  from order_trans [OF epslo x1lo] have lo1: "pow2 (- 1022) \<le> x1" .
  have "(2::rat) ^ 43 = pow2 43" by (simp add: pow2_def)
  also have "\<dots> \<le> pow2 1023" by (rule pow2_mono) simp
  finally have hi1: "x1 < pow2 1023" using x1hi by simp
  from f64_round_rel_error [OF lo1 hi1] obtain r where
    r: "f64_round x1 = Fin r" "\<bar>r - x1\<bar> \<le> x1 * eps" by (auto simp: eps_def)
  have e2: "x1 * eps \<le> x1 / 2" using x1pos by (simp add: eps)
  have rlo: "x1 / 2 \<le> r" using r(2) e2 by linarith
  have rhi: "r \<le> 2 * x1" using r(2) e2 x1pos by linarith
  define x2 where "x2 = r * 200"
  have "eps \<le> x2" using rlo x1lo x1pos by (simp add: x2_def)
  from order_trans [OF epslo this] have lo2: "pow2 (- 1022) \<le> x2" .
  have "x2 < 2 ^ 43 * 400" using rhi x1hi by (simp add: x2_def)
  also have "\<dots> \<le> pow2 52" by (simp add: pow2_def)
  also have "\<dots> \<le> pow2 1023" by (rule pow2_mono) simp
  finally have hi2: "x2 < pow2 1023" .
  from f64_round_rel_error [OF lo2 hi2] obtain p where
    p: "f64_round x2 = Fin p" "\<bar>p - x2\<bar> \<le> x2 * eps" by (auto simp: eps_def)
  have wf: "f64_of_int w = Fin (of_int w)" using w by (simp add: f64_of_int_exact)
  have hf: "f64_of_int h = Fin (of_int h)" using h by (simp add: f64_of_int_exact)
  have d: "f64_of_int 200 = Fin 200" using f64_of_int_exact [of 200] by simp
  have "dstHeight_of u w h 200 = int_of_f64 u (Fin (of_int \<lceil>p\<rceil>))"
    using w r(1) p(1) by (simp add: dstHeight_of_def wf hf d x1_def [symmetric] x2_def [symmetric])
  moreover have "\<bar>p - of_int (200 * h) / of_int w\<bar> < 1 / of_int w"
  proof -
    have X: "of_int (200 * h) / of_int w = 200 * x1" by (simp add: x1_def)
    have "p - 200 * x1 = (p - x2) + 200 * (r - x1)" by (simp add: x2_def)
    then have "\<bar>p - 200 * x1\<bar> \<le> \<bar>p - x2\<bar> + \<bar>200 * (r - x1)\<bar>"
      by (simp only: abs_triangle_ineq)
    also have "\<bar>200 * (r - x1)\<bar> = 200 * \<bar>r - x1\<bar>" by (simp only: abs_mult abs_numeral)
    finally have "\<bar>p - 200 * x1\<bar> \<le> \<bar>p - x2\<bar> + 200 * \<bar>r - x1\<bar>" .
    also have "\<dots> \<le> x2 * eps + 200 * (x1 * eps)" using p(2) r(2) by simp
    also have "\<dots> \<le> 400 * x1 * eps + 200 * (x1 * eps)"
      using rhi eps by (simp add: x2_def)
    also have "\<dots> = 600 * eps * x1" by simp
    also have "\<dots> < 1 / of_int w"
    proof -
      have "600 * eps * x1 = (600 * of_int h * eps) / of_int w" by (simp add: x1_def)
      moreover have "600 * of_int h * eps < 1" using hq by (simp add: eps)
      ultimately show ?thesis using wq by (simp add: divide_strict_right_mono)
    qed
    finally show ?thesis by (simp only: X)
  qed
  ultimately show ?thesis by blast
qed

lemma int_of_f64_integral:
  "- (2 ^ 63) \<le> c \<Longrightarrow> c < 2 ^ 63 \<Longrightarrow> int_of_f64 u (Fin (of_int c)) = c"
  by (simp add: int_of_f64_def)

text \<open>
  The height that the program computes in \<^verbatim>\<open>float64\<close> against the exact
  \<open>\<lceil>200 * h / w\<rceil>\<close>, for a source of width \<open>0 < w < 2^53\<close> and height
  \<open>0 \<le> h < 2^43\<close>: the two agree whenever \<open>200 * h / w\<close> is not an integer; where it is
  an integer, the program gives that integer or the next one.
\<close>

theorem dstHeight_of_ceiling:
  assumes w: "0 < w" "w < 2 ^ 53" and h: "0 \<le> h" "h < 2 ^ 43"
  shows "(\<not> w dvd 200 * h \<longrightarrow> dstHeight_of u w h 200 = \<lceil>of_int (200 * h) / (of_int w :: rat)\<rceil>) \<and>
         (w dvd 200 * h \<longrightarrow> dstHeight_of u w h 200 = 200 * h div w \<or>
                              dstHeight_of u w h 200 = 200 * h div w + 1)"
proof (cases "h = 0")
  case True
  with w show ?thesis by (simp add: dstHeight_of_zero_height)
next
  case False
  with h have hpos: "0 < h" by simp
  define N where "N = 200 * h"
  define q where "q = N div w"
  define t where "t = N mod w"
  define X :: rat where "X = of_int N / of_int w"
  have wq: "(0::rat) < of_int w" "(1::rat) \<le> of_int w" using w by simp_all
  have N: "N = q * w + t" by (simp add: q_def t_def)
  have t: "0 \<le> t" "t < w" using w by (simp_all add: t_def)
  have q0: "0 \<le> q" using hpos w by (simp add: q_def N_def pos_imp_zdiv_nonneg_iff)
  have "q * 1 \<le> q * w" using q0 w by (intro mult_left_mono) simp_all
  with t(1) have "q \<le> N" by (simp add: N)
  also have "N < 2 ^ 52" using h by (simp add: N_def)
  finally have q52: "q < 2 ^ 52" .
  have Xq: "X = of_int q + of_int t / of_int w"
    using wq by (simp add: X_def N field_simps)
  from dstHeight_of_product [OF w hpos h(2), of u] obtain p :: rat where
    d: "dstHeight_of u w h 200 = int_of_f64 u (Fin (of_int \<lceil>p\<rceil>))" and
    p: "\<bar>p - X\<bar> < 1 / of_int w" by (auto simp: X_def N_def)
  have w1: "1 / (of_int w :: rat) \<le> 1" using wq by simp
  show ?thesis
  proof (cases "t = 0")
    case True
    then have dv: "w dvd 200 * h" by (simp add: t_def N_def dvd_eq_mod_eq_0)
    from True have X: "X = of_int q" by (simp add: Xq)
    from p have pp: "p - X < 1 / of_int w" "X - p < 1 / of_int w" by (simp_all add: abs_less_iff)
    from pp w1 have lo: "of_int q - 1 < p" and hi: "p < of_int q + 1" unfolding X by linarith+
    from lo have "q - 1 < \<lceil>p\<rceil>" by (simp add: less_ceiling_iff)
    then have c1: "q \<le> \<lceil>p\<rceil>" by simp
    from hi have "p \<le> of_int (q + 1)" by simp
    then have c2: "\<lceil>p\<rceil> \<le> q + 1" by (simp only: ceiling_le_iff)
    define c where "c = \<lceil>p\<rceil>"
    from c1 c2 q0 q52 have "- (2 ^ 63) \<le> c" "c < 2 ^ 63" by (simp_all add: c_def [symmetric])
    then have "int_of_f64 u (Fin (of_int c)) = c" by (rule int_of_f64_integral)
    then have "int_of_f64 u (Fin (of_int \<lceil>p\<rceil>)) = \<lceil>p\<rceil>" by (simp only: c_def)
    with d c1 c2 have "dstHeight_of u w h 200 = q \<or> dstHeight_of u w h 200 = q + 1" by auto
    with dv show ?thesis by (simp add: q_def N_def)
  next
    case False
    then have ndv: "\<not> w dvd 200 * h" by (simp add: t_def N_def dvd_eq_mod_eq_0)
    from False t have t1: "1 \<le> t" "t \<le> w - 1" by simp_all
    from t1 have "(of_int t :: rat) \<le> of_int (w - 1)" by (simp only: of_int_le_iff)
    then have tq2: "(of_int t :: rat) \<le> of_int w - 1" by simp
    from t1 have tq1: "(1::rat) \<le> of_int t" by simp
    note tq = tq1 tq2
    have iw: "0 < 1 / (of_int w :: rat)" using wq by simp
    have "1 / of_int w \<le> of_int t / (of_int w :: rat)"
      using tq1 wq by (intro divide_right_mono) simp_all
    then have Xlo: "of_int q + 1 / of_int w \<le> X" unfolding Xq by linarith
    have "of_int t / (of_int w :: rat) \<le> (of_int w - 1) / of_int w"
      using tq2 wq by (intro divide_right_mono) simp_all
    also have "\<dots> = 1 - 1 / of_int w" using wq by (simp add: field_simps)
    finally have Xhi: "X \<le> of_int q + 1 - 1 / of_int w" unfolding Xq by linarith
    from p have pp: "p - X < 1 / of_int w" "X - p < 1 / of_int w" by (simp_all add: abs_less_iff)
    from pp Xlo have lo: "of_int q < p" by linarith
    from pp Xhi have hi: "p < of_int q + 1" by linarith
    from lo hi have c: "\<lceil>p\<rceil> = q + 1" by (rule ceiling_between)
    from iw Xlo have "of_int q < X" by linarith
    moreover from iw Xhi have "X < of_int q + 1" by linarith
    ultimately have cX: "\<lceil>X\<rceil> = q + 1" by (rule ceiling_between)
    from q0 q52 have "int_of_f64 u (Fin (of_int (q + 1))) = q + 1"
      by (intro int_of_f64_integral) simp_all
    with d c cX have "dstHeight_of u w h 200 = \<lceil>X\<rceil>" by simp
    with ndv show ?thesis by (simp add: X_def N_def)
  qed
qed

lemma f64_round_three_quarters: "f64_round (3 / 4) = Fin (3 / 4)"
proof -
  have "f64_round (3 / 4) = Fin (of_int 6755399441055744 * pow2 (- 1 - 52))"
    by (rule f64_round_cert) (simp_all add: pow2_def)
  then show ?thesis by (simp add: pow2_def)
qed

lemma f64_round_7_100: "f64_round (7 / 100) = Fin (1261007895663739 / 18014398509481984)"
proof -
  have "f64_round (7 / 100) = Fin (of_int 5044031582654956 * pow2 (- 4 - 52))"
    by (rule f64_round_cert) (simp_all add: pow2_def)
  then show ?thesis by (simp add: pow2_def)
qed

lemma f64_round_14: "f64_round (1261007895663739 / 18014398509481984 * 200) =
    Fin (7881299347898369 / 562949953421312)"
proof -
  have "f64_round (1261007895663739 / 18014398509481984 * 200) =
      Fin (of_int 7881299347898369 * pow2 (3 - 52))"
    by (rule f64_round_cert) (simp_all add: pow2_def)
  then show ?thesis by (simp add: pow2_def)
qed

lemma dstHeight_400x300: "dstHeight_of u 400 300 200 = 150"
proof -
  have a: "f64_of_int 300 = Fin 300" "f64_of_int 400 = Fin 400" "f64_of_int 200 = Fin 200"
    using f64_of_int_exact [of 300] f64_of_int_exact [of 400] f64_of_int_exact [of 200]
    by simp_all
  have c: "f64_round 150 = Fin 150"
    using f64_round_int [of 150] by simp
  show ?thesis
    by (simp add: dstHeight_of_def Let_def a f64_round_three_quarters c int_of_f64_def)
qed

lemma dstHeight_100x7: "dstHeight_of u 100 7 200 = 15"
proof -
  have a: "f64_of_int 7 = Fin 7" "f64_of_int 100 = Fin 100" "f64_of_int 200 = Fin 200"
    using f64_of_int_exact [of 7] f64_of_int_exact [of 100] f64_of_int_exact [of 200]
    by simp_all
  have b: "f64_div (Fin 7) (Fin 100) = Fin (1261007895663739 / 18014398509481984)"
    by (simp add: f64_round_7_100)
  have c: "f64_mul (Fin (1261007895663739 / 18014398509481984)) (Fin 200) =
      Fin (7881299347898369 / 562949953421312)"
    by (simp only: f64_mul.simps f64_round_14)
  have d: "\<lceil>7881299347898369 / 562949953421312 :: rat\<rceil> = 15"
    by (rule ceiling_unique) simp_all
  have e: "math_Ceil (Fin (7881299347898369 / 562949953421312)) = Fin 15"
    by (simp only: math_Ceil.simps d) simp
  have "dstHeight_of u 100 7 200 = int_of_f64 u (Fin 15)"
    by (simp only: dstHeight_of_def Let_def a b c e)
  then show ?thesis by (simp add: int_of_f64_def)
qed

lemma dstHeight_of_zero_width:
  assumes "0 \<le> h" "h < 2 ^ 53"
  shows "dstHeight_of u 0 h 200 = u (if h = 0 then NaN else PInf)"
proof -
  have a: "f64_of_int h = Fin (of_int h)" "f64_of_int 0 = Fin 0" "f64_of_int 200 = Fin 200"
    using assms f64_of_int_exact [of h] f64_of_int_exact [of 0] f64_of_int_exact [of 200]
    by simp_all
  show ?thesis using assms
    by (simp add: dstHeight_of_def Let_def a int_of_f64_def)
qed

subsection \<open>Loading an image\<close>

lemma decode_and_resize_ok:
  "image_Decode X s = (Some i, fmt, None) \<Longrightarrow>
     decode_and_resize X app s =
       Inr (app\<lparr>sourceImg := Some i,
                resizedImg := transform_Resize X (Some i) (dstWidth app)
                  (dstHeight_of (f64_unrep X) (Bounds_Dx X i) (Bounds_Dy X i) (dstWidth app)) Linear\<rparr>,
            [])"
  by (simp add: decode_and_resize_def dstHeight_of_def Let_def)

lemma decode_and_resize_error:
  "image_Decode X s = (m, fmt, Some msg) \<Longrightarrow>
     decode_and_resize X app s = Inr (app\<lparr>sourceImg := m\<rparr>, [msg])"
  by (simp add: decode_and_resize_def Let_def)

lemma HasPrefix_append: "HasPrefix (pre @ s) pre"
  by (simp add: HasPrefix_def)

lemma TrimPrefix_append: "TrimPrefix (pre @ s) pre = s"
  by (simp add: TrimPrefix_def HasPrefix_def)

lemma png_not_jpeg: "\<not> HasPrefix (pngPrefix @ s) jpegPrefix"
  by (simp add: HasPrefix_def pngPrefix_def jpegPrefix_def)

lemma load_jpeg:
  "NewSourceImgFromString X app (jpegPrefix @ s) = decode_and_resize X app s"
  by (simp add: NewSourceImgFromString_def HasPrefix_append TrimPrefix_append)

lemma load_png:
  "NewSourceImgFromString X app (pngPrefix @ s) = decode_and_resize X app s"
  by (simp add: NewSourceImgFromString_def HasPrefix_append TrimPrefix_append png_not_jpeg)

lemma load_unrecognized:
  "\<not> HasPrefix simg jpegPrefix \<Longrightarrow> \<not> HasPrefix simg pngPrefix \<Longrightarrow>
     NewSourceImgFromString X app simg = Inr (app, [''unrecognized image format''])"
  by (simp add: NewSourceImgFromString_def)

text \<open>The four ways in which \<^verbatim>\<open>NewSourceImgFromString\<close> ends: the session untouched, the
  original alone overwritten after a decoding error, a panic, or both components replaced.\<close>

lemma decode_and_resize_outcomes:
  "(\<exists>m msg. decode_and_resize X app s = Inr (app\<lparr>sourceImg := m\<rparr>, [msg])) \<or>
   decode_and_resize X app s = Inl NilDeref \<or>
   (\<exists>i hgt. decode_and_resize X app s =
      Inr (app\<lparr>sourceImg := Some i,
               resizedImg := transform_Resize X (Some i) (dstWidth app) hgt Linear\<rparr>, []))"
proof -
  obtain m fmt err where d: "image_Decode X s = (m, fmt, err)" by (cases "image_Decode X s")
  show ?thesis
  proof (cases err)
    case (Some msg)
    with d have "decode_and_resize X app s = Inr (app\<lparr>sourceImg := m\<rparr>, [msg])"
      by (simp add: decode_and_resize_error)
    then show ?thesis by blast
  next
    case None
    show ?thesis
    proof (cases m)
      case None
      with d \<open>err = None\<close> show ?thesis by (simp add: decode_and_resize_def)
    next
      case (Some i)
      with d \<open>err = None\<close> have "decode_and_resize X app s =
          Inr (app\<lparr>sourceImg := Some i,
                   resizedImg := transform_Resize X (Some i) (dstWidth app)
                     (dstHeight_of (f64_unrep X) (Bounds_Dx X i) (Bounds_Dy X i) (dstWidth app))
                     Linear\<rparr>, [])"
        by (simp add: decode_and_resize_ok)
      then show ?thesis by blast
    qed
  qed
qed

lemma load_outcomes:
  "NewSourceImgFromString X app simg = Inr (app, [''unrecognized image format'']) \<or>
   (\<exists>m msg. NewSourceImgFromString X app simg = Inr (app\<lparr>sourceImg := m\<rparr>, [msg])) \<or>
   NewSourceImgFromString X app simg = Inl NilDeref \<or>
   (\<exists>i hgt. NewSourceImgFromString X app simg =
      Inr (app\<lparr>sourceImg := Some i,
               resizedImg := transform_Resize X (Some i) (dstWidth app) hgt Linear\<rparr>, []))"
proof -
  consider "HasPrefix simg jpegPrefix" | "\<not> HasPrefix simg jpegPrefix" "HasPrefix simg pngPrefix"
    | "\<not> HasPrefix simg jpegPrefix" "\<not> HasPrefix simg pngPrefix" by blast
  then show ?thesis
  proof cases
    case 1
    then have "NewSourceImgFromString X app simg =
        decode_and_resize X app (TrimPrefix simg jpegPrefix)"
      by (simp add: NewSourceImgFromString_def)
    with decode_and_resize_outcomes [of X app "TrimPrefix simg jpegPrefix"]
    show ?thesis by simp
  next
    case 2
    then have "NewSourceImgFromString X app simg =
        decode_and_resize X app (TrimPrefix simg pngPrefix)"
      by (simp add: NewSourceImgFromString_def)
    with decode_and_resize_outcomes [of X app "TrimPrefix simg pngPrefix"]
    show ?thesis by simp
  next
    case 3
    then show ?thesis by (simp add: load_unrecognized)
  qed
qed

lemma sym_Decode_simps:
  "sym_Decode ''img400x300'' = (Some (Pixels 400 300), ''jpeg'', None)"
  "sym_Decode ''img100x7'' = (Some (Pixels 100 7), ''png'', None)"
  "sym_Decode ''img0x5'' = (Some (Pixels 0 5), ''png'', None)"
  "sym_Decode ''AAAA'' = (None, [], Some ''image: unknown format'')"
  by (simp_all add: sym_Decode_def)

lemma load_400x300:
  "NewSourceImgFromString sym_extern NewApp (jpegPrefix @ ''img400x300'') = Inr (loaded_400x300, [])"
  by (simp add: load_jpeg decode_and_resize_ok [where i = "Pixels 400 300" and fmt = "''jpeg''"]
        sym_extern_def sym_Decode_simps NewApp_def loaded_400x300_def dstHeight_400x300)

text \<open>
  Claim C1, at a decoding error. A session that holds a decoded 400x300 image and its
  preview is given a PNG data URL whose payload does not decode: the program writes the
  error to the console, the original is overwritten by the \<^verbatim>\<open>nil\<close> image of the decoder
  and the preview is kept, so one component is replaced and the other is not. With an
  unrecognised prefix the same session is left as it was.
\<close>

theorem load_decode_failure_overwrites_original:
  "NewSourceImgFromString sym_extern loaded_400x300 (pngPrefix @ ''AAAA'') =
     Inr (loaded_400x300\<lparr>sourceImg := None\<rparr>, [''image: unknown format'']) \<and>
   sourceImg (loaded_400x300\<lparr>sourceImg := None\<rparr>) \<noteq> sourceImg loaded_400x300 \<and>
   resizedImg (loaded_400x300\<lparr>sourceImg := None\<rparr>) = resizedImg loaded_400x300 \<and>
   NewSourceImgFromString sym_extern loaded_400x300 ''data:image/gif;base64,R0lGODlh'' =
     Inr (loaded_400x300, [''unrecognized image format''])"
proof -
  have 1: "NewSourceImgFromString sym_extern loaded_400x300 (pngPrefix @ ''AAAA'') =
      Inr (loaded_400x300\<lparr>sourceImg := None\<rparr>, [''image: unknown format''])"
    by (simp add: load_png decode_and_resize_error [where m = None and fmt = "[]"]
          sym_extern_def sym_Decode_simps)
  have 2: "sourceImg (loaded_400x300\<lparr>sourceImg := None\<rparr>) \<noteq> sourceImg loaded_400x300"
    by (simp add: loaded_400x300_def)
  have 3: "NewSourceImgFromString sym_extern loaded_400x300 ''data:image/gif;base64,R0lGODlh'' =
      Inr (loaded_400x300, [''unrecognized image format''])"
    by (rule load_unrecognized) (simp_all add: HasPrefix_def jpegPrefix_def pngPrefix_def)
  from 1 2 3 show ?thesis by simp
qed

text \<open>
  Claim C6, at a source of width 100 and height 7. The program divides and multiplies in
  \<^verbatim>\<open>float64\<close>: \<open>7 / 100\<close> rounds up, its product with 200 rounds to the next
  \<^verbatim>\<open>float64\<close> above 14, and the height of the preview is 15, whereas
  \<open>\<lceil>200 * 7 / 100\<rceil>\<close> is 14.
\<close>

theorem load_100x7_preview_height:
  "NewSourceImgFromString sym_extern NewApp (pngPrefix @ ''img100x7'') =
     Inr (NewApp\<lparr>sourceImg := Some (Pixels 100 7),
                  resizedImg := Some (Resized (Some (Pixels 100 7)) 200 15 Linear)\<rparr>, []) \<and>
   \<lceil>200 * 7 / (100 :: rat)\<rceil> = 14"
  by (simp add: load_png decode_and_resize_ok [where i = "Pixels 100 7" and fmt = "''png''"]
        sym_extern_def sym_Decode_simps NewApp_def dstHeight_100x7)

text \<open>
  Against claim C9 as stated: a PNG that decodes to an image of width 0 and height 5 is
  loaded without a failure. Nothing is written to the console, and the session holds the
  decoded image and the result of the resize.
\<close>

theorem load_zero_width_counterexample:
  "\<not> load_failed (NewSourceImgFromString sym_extern NewApp (pngPrefix @ ''img0x5'')) \<and>
   NewSourceImgFromString sym_extern NewApp (pngPrefix @ ''img0x5'') =
     Inr (NewApp\<lparr>sourceImg := Some (Pixels 0 5),
                  resizedImg := Some (Resized (Some (Pixels 0 5)) 200 (- (2 ^ 63)) Linear)\<rparr>, [])"
  by (simp add: load_failed_def load_png
        decode_and_resize_ok [where i = "Pixels 0 5" and fmt = "''png''"]
        sym_extern_def sym_Decode_simps NewApp_def dstHeight_of_zero_width)

text \<open>
  Claim C9, amended. For an input that decodes to an image of width 0 (and a height from
  0 below \<open>2^53\<close>) \<^verbatim>\<open>NewSourceImgFromString\<close> does not fail: the division by the zero
  width gives an infinity, or NaN for height 0, the conversion of that to \<^verbatim>\<open>int\<close> gives
  the height that the platform chooses, and the session holds the decoded image and the
  result of \<^verbatim>\<open>transform.Resize\<close> for width 200 and that height. Nothing is written
  to the console.
\<close>

theorem load_zero_width_does_not_fail:
  "image_Decode X s = (Some i, fmt, None) \<and> Bounds_Dx X i = 0 \<and>
   0 \<le> Bounds_Dy X i \<and> Bounds_Dy X i < 2 ^ 53 \<and> dstWidth app = 200 \<longrightarrow>
     NewSourceImgFromString X app (jpegPrefix @ s) =
       Inr (app\<lparr>sourceImg := Some i,
                resizedImg := transform_Resize X (Some i) 200
                  (f64_unrep X (if Bounds_Dy X i = 0 then NaN else PInf)) Linear\<rparr>, []) \<and>
     NewSourceImgFromString X app (pngPrefix @ s) =
       Inr (app\<lparr>sourceImg := Some i,
                resizedImg := transform_Resize X (Some i) 200
                  (f64_unrep X (if Bounds_Dy X i = 0 then NaN else PInf)) Linear\<rparr>, []) \<and>
     \<not> load_failed (NewSourceImgFromString X app (jpegPrefix @ s)) \<and>
     \<not> load_failed (NewSourceImgFromString X app (pngPrefix @ s))"
  by (simp add: load_jpeg load_png decode_and_resize_ok dstHeight_of_zero_width load_failed_def)

theorem load_zero_width_does_not_fail_witness:
  "NewSourceImgFromString sym_extern loaded_400x300 (jpegPrefix @ ''img0x5'') =
     Inr (loaded_400x300\<lparr>sourceImg := Some (Pixels 0 5),
            resizedImg := Some (Resized (Some (Pixels 0 5)) 200 (- (2 ^ 63)) Linear)\<rparr>, [])"
proof -
  have h: "image_Decode sym_extern ''img0x5'' = (Some (Pixels 0 5), ''png'', None) \<and>
      Bounds_Dx sym_extern (Pixels 0 5) = 0 \<and> 0 \<le> Bounds_Dy sym_extern (Pixels 0 5) \<and>
      Bounds_Dy sym_extern (Pixels 0 5) < 2 ^ 53 \<and> dstWidth loaded_400x300 = 200"
    by (simp add: sym_extern_def sym_Decode_simps loaded_400x300_def)
  from load_zero_width_does_not_fail [of sym_extern "''img0x5''" "Pixels 0 5" "''png''"
      loaded_400x300, THEN mp, OF h]
  show ?thesis by (simp add: sym_extern_def)
qed

subsection \<open>Identifiers\<close>

lemma digit_char_is_digit: "d < 10 \<Longrightarrow> is_digit (digit_char d)"
proof -
  assume "d < 10"
  then have "d \<in> {0, 1, 2, 3, 4, 5, 6, 7, 8, 9}" by auto
  then show ?thesis by (auto simp: is_digit_def digit_char_def)
qed

lemma digit_char_inj: "a < 10 \<Longrightarrow> b < 10 \<Longrightarrow> digit_char a = digit_char b \<Longrightarrow> a = b"
proof -
  assume "a < 10" "b < 10" and e: "digit_char a = digit_char b"
  then have "a \<in> {0, 1, 2, 3, 4, 5, 6, 7, 8, 9}" "b \<in> {0, 1, 2, 3, 4, 5, 6, 7, 8, 9}" by auto
  with e show ?thesis by (auto simp: digit_char_def)
qed

lemma FormatUint_nonempty: "FormatUint n \<noteq> []"
  by (subst FormatUint.simps) simp

lemma FormatUint_last: "last (FormatUint n) = digit_char (n mod 10)"
  by (subst FormatUint.simps) simp

lemma FormatUint_butlast:
  "butlast (FormatUint n) = (if n < 10 then [] else FormatUint (n div 10))"
  by (subst FormatUint.simps) (simp add: butlast_append)

lemma FormatUint_digits: "\<forall>c\<in>set (FormatUint n). is_digit c"
proof (induction n rule: FormatUint.induct)
  case (1 n)
  show ?case
  proof (cases "n < 10")
    case True
    then show ?thesis by (subst FormatUint.simps) (simp add: digit_char_is_digit)
  next
    case False
    with "1.IH" have "\<forall>c\<in>set (FormatUint (n div 10)). is_digit c" by simp
    with False show ?thesis by (subst FormatUint.simps) (simp add: digit_char_is_digit)
  qed
qed

lemma FormatUint_inj: "FormatUint n = FormatUint m \<Longrightarrow> n = m"
proof (induction n arbitrary: m rule: FormatUint.induct)
  case (1 n)
  from "1.prems" have "last (FormatUint n) = last (FormatUint m)" by simp
  then have "digit_char (n mod 10) = digit_char (m mod 10)" by (simp add: FormatUint_last)
  then have md: "n mod 10 = m mod 10" by (intro digit_char_inj) simp_all
  from "1.prems" have "butlast (FormatUint n) = butlast (FormatUint m)" by simp
  then have bl: "(if n < 10 then [] else FormatUint (n div 10)) =
      (if m < 10 then [] else FormatUint (m div 10))"
    by (simp only: FormatUint_butlast)
  show ?case
  proof (cases "n < 10")
    case True
    with bl FormatUint_nonempty [of "m div 10"] have "m < 10" by (auto split: if_splits)
    with True md show ?thesis by simp
  next
    case False
    with bl FormatUint_nonempty [of "n div 10"] have m: "\<not> m < 10" by (auto split: if_splits)
    with False bl have "FormatUint (n div 10) = FormatUint (m div 10)" by simp
    with "1.IH" False have "n div 10 = m div 10" by simp
    with md show ?thesis by (metis div_mult_mod_eq)
  qed
qed

lemma takeWhile_append_all:
  "\<forall>x\<in>set xs. P x \<Longrightarrow> ys = [] \<or> \<not> P (hd ys) \<Longrightarrow> takeWhile P (xs @ ys) = xs"
  by (induction xs) (auto simp: takeWhile_eq_Nil_iff)

lemma trailing_digits:
  assumes "no_trailing_digit name"
  shows "rev (takeWhile is_digit (rev (name @ FormatUint k))) = FormatUint k"
proof -
  have "takeWhile is_digit (rev (FormatUint k) @ rev name) = rev (FormatUint k)"
  proof (rule takeWhile_append_all)
    show "\<forall>x\<in>set (rev (FormatUint k)). is_digit x" using FormatUint_digits [of k] by simp
    show "rev name = [] \<or> \<not> is_digit (hd (rev name))"
      using assms by (auto simp: no_trailing_digit_def hd_rev)
  qed
  then show ?thesis by simp
qed

lemma issued_id_inj:
  assumes "no_trailing_digit a" "no_trailing_digit b" "a @ FormatUint n = b @ FormatUint m"
  shows "n = m"
proof -
  from assms(3) have "rev (takeWhile is_digit (rev (a @ FormatUint n))) =
      rev (takeWhile is_digit (rev (b @ FormatUint m)))" by simp
  then have "FormatUint n = FormatUint m"
    by (simp only: trailing_digits [OF assms(1)] trailing_digits [OF assms(2)])
  then show ?thesis by (rule FormatUint_inj)
qed

lemma registered_no_trailing_digit: "registered name \<Longrightarrow> no_trailing_digit name"
  by (auto simp: registered_def no_trailing_digit_def is_digit_def)

lemma registered2_no_trailing_digit: "registered2 name \<Longrightarrow> no_trailing_digit name"
  by (auto simp: registered2_def no_trailing_digit_def is_digit_def)

lemma ids_issued_add:
  assumes a: "ids_issued c ids" and s: "no_trailing_digit selected"
  shows "ids_issued (c + 1) (ids @ [selected @ Itoa (c + 1)])"
proof -
  from a have c0: "0 \<le> c" and d: "distinct ids" and
    old: "\<forall>i\<in>set ids. \<exists>name k. i = name @ FormatUint k \<and> no_trailing_digit name \<and>
        0 < k \<and> int k \<le> c"
    by (simp_all add: ids_issued_def)
  define new where "new = selected @ FormatUint (nat (c + 1))"
  have it: "selected @ Itoa (c + 1) = new" using c0 by (simp add: new_def Itoa_def)
  have fresh: "new \<notin> set ids"
  proof
    assume "new \<in> set ids"
    with old obtain name k where k: "new = name @ FormatUint k" "no_trailing_digit name"
      "0 < k" "int k \<le> c" by blast
    from k(1) have "name @ FormatUint k = selected @ FormatUint (nat (c + 1))"
      by (simp add: new_def)
    from issued_id_inj [OF k(2) s this] have "k = nat (c + 1)" .
    with k(4) c0 show False by simp
  qed
  have all: "\<forall>i\<in>set (ids @ [new]). \<exists>name k. i = name @ FormatUint k \<and>
      no_trailing_digit name \<and> 0 < k \<and> int k \<le> c + 1"
  proof
    fix i assume "i \<in> set (ids @ [new])"
    then consider "i \<in> set ids" | "i = new" by auto
    then show "\<exists>name k. i = name @ FormatUint k \<and> no_trailing_digit name \<and>
        0 < k \<and> int k \<le> c + 1"
    proof cases
      case 1
      with old obtain name k where "i = name @ FormatUint k" "no_trailing_digit name"
        "0 < k" "int k \<le> c" by blast
      then show ?thesis by (intro exI [of _ name] exI [of _ k]) simp
    next
      case 2
      with s c0 show ?thesis
        by (intro exI [of _ selected] exI [of _ "nat (c + 1)"]) (simp add: new_def)
    qed
  qed
  from c0 d fresh all show ?thesis
    unfolding ids_issued_def it by simp
qed

lemma Update_loop_ids: "map Id_e (Update_loop es ident v) = map Id_e es"
  by (induction es) auto

lemma Update2_loop_ids: "map Id_t (Update2_loop ts ident values) = map Id_t ts"
  by (induction ts) auto

lemma step_listeners_ids:
  assumes "ids_issued (cnt app) (map Id_e (effects app))" "adds_only registered ev"
  shows "ids_issued (cnt (step_listeners app ev)) (map Id_e (effects (step_listeners app ev)))"
proof (cases ev)
  case (Add selected)
  with assms(2) have "no_trailing_digit selected" by (simp add: registered_no_trailing_digit)
  from ids_issued_add [OF assms(1) this] Add show ?thesis
    by (simp add: addEffectBtnClickListener_def Append_def Let_def)
next
  case (Change ident v)
  with assms(1) show ?thesis
    by (simp add: effectsChangeListener_def Update_def Update_loop_ids)
qed

lemma step2_ids:
  assumes "ids_issued (cnt2 (App_j2 jsa)) (map Id_t (transformations (App_j2 jsa)))"
    "adds_only registered2 ev"
  shows "ids_issued (cnt2 (App_j2 (step2 X jsa ev)))
           (map Id_t (transformations (App_j2 (step2 X jsa ev))))"
proof (cases ev)
  case (Add selected)
  with assms(2) have "no_trailing_digit selected" by (simp add: registered2_no_trailing_digit)
  from ids_issued_add [OF assms(1) this] Add show ?thesis
    by (simp add: AddEffectCallback2_def Append2_def Let_def)
next
  case (Change ident v)
  with assms(1) show ?thesis
    by (simp add: ChangeEffectsCallback2_def Update2_def Update2_loop_ids)
qed

lemma run_listeners_ids:
  "ids_issued (cnt app) (map Id_e (effects app)) \<Longrightarrow> list_all (adds_only registered) evs \<Longrightarrow>
     ids_issued (cnt (run_listeners app evs)) (map Id_e (effects (run_listeners app evs)))"
proof (induction evs arbitrary: app)
  case Nil
  then show ?case by (simp add: run_listeners_def)
next
  case (Cons ev evs)
  from Cons.prems have "adds_only registered ev" and ks: "list_all (adds_only registered) evs"
    by simp_all
  from step_listeners_ids [OF Cons.prems(1) this(1)]
  have "ids_issued (cnt (step_listeners app ev)) (map Id_e (effects (step_listeners app ev)))" .
  from Cons.IH [OF this ks] show ?case by (simp add: run_listeners_def)
qed

lemma run2_ids:
  "ids_issued (cnt2 (App_j2 jsa)) (map Id_t (transformations (App_j2 jsa))) \<Longrightarrow>
   list_all (adds_only registered2) evs \<Longrightarrow>
     ids_issued (cnt2 (App_j2 (run2 X jsa evs)))
       (map Id_t (transformations (App_j2 (run2 X jsa evs))))"
proof (induction evs arbitrary: jsa)
  case Nil
  then show ?case by (simp add: run2_def)
next
  case (Cons ev evs)
  from Cons.prems have "adds_only registered2 ev" and ks: "list_all (adds_only registered2) evs"
    by simp_all
  from step2_ids [OF Cons.prems(1) this(1)]
  have "ids_issued (cnt2 (App_j2 (step2 X jsa ev)))
      (map Id_t (transformations (App_j2 (step2 X jsa ev))))" .
  from Cons.IH [OF this ks] show ?case by (simp add: run2_def)
qed

text \<open>
  The second revision in main.go and part_001 read the counter that they increment: in
  every session that starts new and handles any events whose added names are registered
  kinds, the identifiers of the pipeline are distinct.
\<close>

lemma listeners_identifiers_distinct:
  "list_all (adds_only registered) evs \<Longrightarrow>
     distinct (map Id_e (effects (run_listeners NewApp evs)))"
proof -
  have 0: "ids_issued (cnt (NewApp :: 'a App)) (map Id_e (effects (NewApp :: 'a App)))"
    by (simp add: ids_issued_def NewApp_def)
  assume "list_all (adds_only registered) evs"
  from run_listeners_ids [OF 0 this]
  show "distinct (map Id_e (effects (run_listeners (NewApp :: 'a App) evs)))"
    by (simp add: ids_issued_def)
qed

lemma part_001_identifiers_distinct:
  "list_all (adds_only registered2) evs \<Longrightarrow>
     distinct (map Id_t (transformations (App_j2 (run2 X (NewJsApp2 NewApp2) evs))))"
proof -
  have 0: "ids_issued (cnt2 (App_j2 (NewJsApp2 (NewApp2 :: 'a App2))))
      (map Id_t (transformations (App_j2 (NewJsApp2 (NewApp2 :: 'a App2)))))"
    by (simp add: ids_issued_def NewApp2_def NewJsApp2_def)
  assume "list_all (adds_only registered2) evs"
  from run2_ids [OF 0 this]
  show "distinct (map Id_t (transformations (App_j2 (run2 X (NewJsApp2 NewApp2) evs))))"
    by (simp add: ids_issued_def)
qed

text \<open>
  Claim C8, at two clicks on the add button with brightness selected in a new session of
  the first revision in main.go. The callback increments the counter of the \<^verbatim>\<open>JsApp\<close>
  and reads the counter of the captured parameter, which stays 0: both instances get the
  identifier \<open>brightness0\<close>, and a change of the second slider updates the first
  instance.
\<close>

theorem AddEffectCallback_repeats_identifier:
  "map Id_e (effects (App_j two_brightness)) = [''brightness0'', ''brightness0''] \<and>
   \<not> distinct (map Id_e (effects (App_j two_brightness))) \<and>
   map Value_e (effects (App_j (ChangeEffectsCallback two_brightness
       (Id_e (effects (App_j two_brightness) ! 1)) (Fin 1)))) = [Fin 1, Fin 0]"
  by (simp add: two_brightness_def one_brightness_def AddEffectCallback_def
        ChangeEffectsCallback_def NewJsApp_def NewApp_def Append_def Update_def Let_def Itoa_0)

end
